theory Spec2Isabelle
  imports Main "HOL-Library.Word" "HOL-Library.Signed_Division"
begin

unbundle bit_operations_syntax

section \<open>Data model of synth\_Playtune\<close>

text \<open>
  The C++ types: \<open>byte\<close> and \<open>unsigned char\<close> are 8-bit words, \<open>int16_t\<close> and
  \<open>uint16_t\<close> 16-bit words, \<open>int32_t\<close>, \<open>int\<close>, \<open>unsigned\<close> and \<open>uint32_t\<close>
  32-bit words (the target is a 32-bit ARM). Arithmetic on them wraps around; the signed
  reading is \<open>sint\<close>, the unsigned one \<open>unat\<close>. Pointers into the read-only score
  bytestream are addresses (\<open>nat\<close>) into a program memory \<open>nat \<Rightarrow> byte\<close>: the code
  has no length of the score and reads whatever address its cursor has reached.
\<close>

type_synonym byte = "8 word"
type_synonym int16 = "16 word"
type_synonym int32 = "32 word"
type_synonym progmem = "nat \<Rightarrow> byte"

text \<open>
  What is undefined behaviour in the C++ source is a fault of the model: a read of a table
  beyond its last entry, and an integer division by zero on a processor that traps on it.
\<close>

datatype error = DivByZero | OutOfBounds

definition lookup :: "'a list \<Rightarrow> nat \<Rightarrow> error + 'a" where
  "lookup xs i = (if i < length xs then Inr (xs ! i) else Inl OutOfBounds)"

definition MAX_TGENS :: nat where
  "MAX_TGENS = 16"

definition ASSUME_VOLUME :: bool where
  "ASSUME_VOLUME = False"

definition BOOST_PERCUSSION :: bool where
  "BOOST_PERCUSSION = False"

definition HDR_F1_VOLUME_PRESENT :: byte where
  "HDR_F1_VOLUME_PRESENT = 0x80"

definition CMD_PLAYNOTE :: byte where
  "CMD_PLAYNOTE = 0x90"

definition CMD_STOPNOTE :: byte where
  "CMD_STOPNOTE = 0x80"

definition CMD_INSTRUMENT :: byte where
  "CMD_INSTRUMENT = 0xc0"

definition CMD_RESTART :: byte where
  "CMD_RESTART = 0xe0"

definition CMD_STOP :: byte where
  "CMD_STOP = 0xf0"

definition MIN_NOTE :: byte where
  "MIN_NOTE = 21"

definition MAX_NOTE :: byte where
  "MAX_NOTE = 108"

definition INT_MAX :: int32 where
  "INT_MAX = 0x7FFFFFFF"

datatype env_state_t =
  ENV_IDLE | ENV_DELAY | ENV_ATTACK | ENV_HOLD | ENV_DECAY | ENV_SUSTAIN | ENV_RELEASE

record file_hdr_t =
  id1 :: byte
  id2 :: byte
  hdr_length :: byte
  f1 :: byte
  f2 :: byte
  num_tgens :: byte

text \<open>
  \<open>struct tone_gen_t\<close>. The two \<open>byte\<close> flags \<open>playing\<close> and \<open>percussion\<close> only ever
  hold \<open>true\<close> or \<open>false\<close> and are booleans here. \<open>waveform_array\<close> points to an
  immutable table; the model keeps the table it points to.
\<close>

record tone_gen_t =
  tone_phase :: int32
  tone_incr :: int32
  volume_frac :: int32
  drum_ending_sample_index :: int16
  instrument_index :: byte
  playing :: bool
  percussion :: bool
  env_state :: env_state_t
  env_mult :: int32
  env_incr :: int32
  env_count :: int32
  waveform_array :: "int16 list"

text \<open>\<open>struct instrument_waveform_t\<close>: the wave table, the envelope counts in samples
  and the sustain level as a fraction of \<open>2^16\<close>.\<close>

record instrument_waveform_t =
  waveforms :: "int16 list"
  delay :: int32
  attack :: int32
  hold :: int32
  decay :: int32
  release :: int32
  sustain_level :: int32

text \<open>
  The state of an \<open>AudioSynthPlaytune\<close> object, with the file-level variable \<open>seed\<close> of
  the random byte generator. \<open>tone_gen\<close> is the array of \<open>MAX_TGENS\<close> generators; the
  code indexes it below \<open>MAX_TGENS\<close> only.
\<close>

record state =
  tune_playing :: bool
  num_tgens_used :: byte
  amplitude_fraction :: int32
  volume_present :: bool
  num_tgens_playing_last :: int32
  score_start :: nat
  score_cursor :: nat
  scorewait_samples :: int32
  tone_gen :: "nat \<Rightarrow> tone_gen_t"
  file_header :: file_hdr_t
  seed :: byte

text \<open>
  What the source takes from outside the two files: the wave tables and the table
  \<open>drum_waveform_size\<close> of \<open>synth_Playtune_waves.c\<close>, and the audio library's constant
  \<open>AUDIO_SAMPLE_RATE\<close>, a floating-point number. The model takes them as parameters:
  \<^item> \<open>instrument_waveforms\<close>: the table of that name, whose counts are
    \<open>ms2cnt(ms) = (int32_t)(ms*AUDIO_SAMPLE_RATE/1000)\<close>;
  \<^item> \<open>drum_waveforms\<close>, \<open>drum_waveform_size\<close>: the percussion tables and their sizes;
  \<^item> \<open>drum_incr f\<close>: the value of \<open>(int64_t) f * 0x20000 / AUDIO_SAMPLE_RATE\<close>;
  \<^item> \<open>rate_trunc\<close>: \<open>(uint64_t)AUDIO_SAMPLE_RATE\<close>, and \<open>rate_round\<close>:
    \<open>(uint64_t)(AUDIO_SAMPLE_RATE + .5)\<close>, both positive.

  One more parameter is what the processor does with an integer division by zero, which
  C++ leaves undefined: \<open>div_by_zero\<close> is \<open>None\<close> when the division traps and
  \<open>Some v\<close> when it yields \<open>v\<close>. The source is written for the audio library of the
  Teensy boards; the \<open>SDIV\<close> instruction of their ARM Cortex-M processors yields 0 as
  long as the divide-by-zero trap of the processor is not enabled.
\<close>

record config =
  instrument_waveforms :: "instrument_waveform_t list"
  drum_waveforms :: "int16 list list"
  drum_waveform_size :: "int16 list"
  drum_incr :: "int16 \<Rightarrow> int32"
  rate_trunc :: nat
  rate_round :: nat
  div_by_zero :: "int32 option"

text \<open>C++ \<open>a / b\<close> on \<open>int32_t\<close>: truncation towards zero; for \<open>b = 0\<close> what the
  processor does.\<close>

definition c_div :: "config \<Rightarrow> int32 \<Rightarrow> int32 \<Rightarrow> error + int32" where
  "c_div cfg a b =
     (if b = 0 then (case div_by_zero cfg of None \<Rightarrow> Inl DivByZero | Some v \<Rightarrow> Inr v)
      else Inr (word_of_int (sint a sdiv sint b)))"

section \<open>Tables\<close>

definition freq4096 :: "int32 list" where
  "freq4096 = [112640, 119338, 126434, 133952, 141918, 150356, 159297,
  168769, 178805, 189437, 200702, 212636, 225280, 238676, 252868,
  267905, 283835, 300713, 318594, 337539, 357610, 378874, 401403,
  425272, 450560, 477352, 505737, 535809, 567670, 601425, 637188,
  675077, 715219, 757749, 802807, 850544, 901120, 954703, 1011473,
  1071618, 1135340, 1202851, 1274376, 1350154, 1430439, 1515497,
  1605613, 1701088, 1802240, 1909407, 2022946, 2143237, 2270680,
  2405702, 2548752, 2700309, 2860878, 3030994, 3211227, 3402176,
  3604480, 3818814, 4045892, 4286473, 4541360, 4811404, 5097505,
  5400618, 5721755, 6061989, 6422453, 6804352, 7208960, 7637627,
  8091784, 8572947, 9082720, 9622807, 10195009, 10801236, 11443511,
  12123977, 12844906, 13608704, 14417920, 15275254, 16183568,
  17145893]"

text \<open>\<open>mixer_amplitude_fractions\<close>: \<open>fract16(x) = (int32_t)(x*65536.0)\<close> for
  1.0, 1.0, .60, .50, .40, .30, .25, .23, .20, .18, .16, .15, .14, .13, .12, .11, .10.\<close>

definition mixer_amplitude_fractions :: "int32 list" where
  "mixer_amplitude_fractions = [65536,
     65536, 39321, 32768, 26214, 19660, 16384, 15073, 13107,
     11796, 10485, 9830, 9175, 8519, 7864, 7208, 6553]"

abbreviation (input) "I_AGUITAR \<equiv> (0::byte)"
abbreviation (input) "I_SAX \<equiv> (1::byte)"
abbreviation (input) "I_BIRDS \<equiv> (2::byte)"
abbreviation (input) "I_CELLO \<equiv> (3::byte)"
abbreviation (input) "I_CLARINET \<equiv> (4::byte)"
abbreviation (input) "I_CLAVINET \<equiv> (5::byte)"
abbreviation (input) "I_DBASS \<equiv> (6::byte)"
abbreviation (input) "I_EBASS \<equiv> (7::byte)"
abbreviation (input) "I_EGUITAR \<equiv> (8::byte)"
abbreviation (input) "I_ORGAN \<equiv> (9::byte)"
abbreviation (input) "I_EPIANO \<equiv> (10::byte)"
abbreviation (input) "I_FLUTE \<equiv> (11::byte)"
abbreviation (input) "I_OBOE \<equiv> (12::byte)"
abbreviation (input) "I_PIANO \<equiv> (13::byte)"
abbreviation (input) "I_VIOLIN \<equiv> (14::byte)"

definition instrument_patch_map :: "byte list" where
  "instrument_patch_map = [
  I_DBASS, I_DBASS, I_EBASS, I_DBASS, I_EBASS, I_EBASS, I_EBASS, I_EBASS,
  I_CLAVINET, I_CLAVINET, I_CLAVINET, I_CLAVINET, I_CLAVINET, I_CLAVINET, I_CLAVINET, I_CLAVINET,
  I_ORGAN, I_ORGAN, I_ORGAN, I_ORGAN, I_ORGAN, I_ORGAN, I_ORGAN, I_ORGAN,
  I_AGUITAR, I_EGUITAR, I_EGUITAR, I_EGUITAR, I_EGUITAR, I_EGUITAR, I_EGUITAR, I_AGUITAR,
  I_DBASS, I_EBASS, I_EBASS, I_DBASS, I_DBASS, I_DBASS, I_EBASS, I_EBASS,
  I_VIOLIN, I_VIOLIN, I_CELLO, I_CELLO, I_VIOLIN, I_VIOLIN, I_VIOLIN, I_VIOLIN,
  I_VIOLIN, I_VIOLIN, I_VIOLIN, I_VIOLIN, I_VIOLIN, I_VIOLIN, I_VIOLIN, I_VIOLIN,
  I_DBASS, I_DBASS, I_DBASS, I_DBASS, I_DBASS, I_DBASS, I_DBASS, I_DBASS,
  I_SAX, I_SAX, I_SAX, I_OBOE, I_OBOE, I_SAX, I_SAX, I_OBOE,
  I_FLUTE, I_FLUTE, I_FLUTE, I_FLUTE, I_FLUTE, I_FLUTE, I_FLUTE, I_FLUTE,
  I_EGUITAR, I_EGUITAR, I_EGUITAR, I_EGUITAR, I_EGUITAR, I_EGUITAR, I_EGUITAR, I_EGUITAR,
  I_VIOLIN, I_VIOLIN, I_VIOLIN, I_VIOLIN, I_VIOLIN, I_VIOLIN, I_VIOLIN, I_VIOLIN,
  I_BIRDS, I_BIRDS, I_BIRDS, I_BIRDS, I_BIRDS, I_BIRDS, I_BIRDS, I_BIRDS,
  I_ORGAN, I_ORGAN, I_ORGAN, I_ORGAN, I_ORGAN, I_ORGAN, I_ORGAN, I_ORGAN,
  I_EBASS, I_EBASS, I_EBASS, I_EBASS, I_EBASS, I_EBASS, I_EBASS, I_EBASS,
  I_BIRDS, I_BIRDS, I_BIRDS, I_BIRDS, I_BIRDS, I_BIRDS, I_BIRDS, I_BIRDS]"

definition drum_waveform_frequencies :: "int16 list" where
  "drum_waveform_frequencies = [4000, 8000, 8000, 8000, 4000, 4000]"

abbreviation (input) "D_BASS \<equiv> (0::byte)"
abbreviation (input) "D_SNARE \<equiv> (1::byte)"
abbreviation (input) "D_TOM \<equiv> (2::byte)"
abbreviation (input) "D_CYMBAL \<equiv> (3::byte)"
abbreviation (input) "D_BONGO \<equiv> (4::byte)"
abbreviation (input) "D_BELL \<equiv> (5::byte)"

definition drum_patch_map :: "byte list" where
  "drum_patch_map = [
  D_BASS, D_SNARE, D_TOM, D_CYMBAL, D_BONGO, D_BELL, D_BASS, D_BASS, D_BASS, D_BASS, D_BASS, D_BASS, D_BASS, D_BASS, D_BASS, D_BASS,
  D_BASS, D_BASS, D_BASS, D_BASS, D_BASS, D_BASS, D_BASS, D_BASS, D_BASS, D_BASS, D_BASS, D_BASS, D_BASS, D_BASS, D_BASS, D_BASS,
  D_BASS, D_BASS, D_BASS, D_BASS, D_BASS, D_SNARE, D_SNARE, D_SNARE, D_TOM, D_CYMBAL, D_TOM, D_CYMBAL, D_TOM, D_CYMBAL, D_TOM, D_TOM,
  D_CYMBAL, D_TOM, D_CYMBAL, D_CYMBAL, D_BELL, D_SNARE, D_CYMBAL, D_BELL, D_CYMBAL, D_CYMBAL, D_CYMBAL, D_BONGO, D_BONGO, D_BONGO, D_BONGO, D_BONGO,
  D_TOM, D_TOM, D_BELL, D_BELL, D_CYMBAL, D_CYMBAL, D_BELL, D_BELL, D_BONGO, D_BONGO, D_BONGO, D_BONGO, D_BONGO, D_TOM, D_TOM, D_BELL,
  D_BELL, D_BASS, D_BASS, D_BASS, D_BASS, D_BASS, D_BASS, D_BASS, D_BASS, D_BASS, D_BASS, D_BASS, D_BASS, D_BASS, D_BASS, D_BASS,
  D_BASS, D_BASS, D_BASS, D_BASS, D_BASS, D_BASS, D_BASS, D_BASS, D_BASS, D_BASS, D_BASS, D_BASS, D_BASS, D_BASS, D_BASS, D_BASS,
  D_BASS, D_BASS, D_BASS, D_BASS, D_BASS, D_BASS, D_BASS, D_BASS, D_BASS, D_BASS, D_BASS, D_BASS, D_BASS, D_BASS, D_BASS, D_BASS]"

section \<open>Random byte generator\<close>

text \<open>\<open>random_byte\<close> on the value of \<open>seed\<close>: the result is both returned and stored.\<close>

definition random_byte :: "byte \<Rightarrow> byte" where
  "random_byte s0 =
     (let s1 = s0 XOR push_bit 7 s0;
          s2 = s1 XOR drop_bit 5 s1;
          s3 = s2 XOR push_bit 3 s2
      in s3)"

section \<open>Starting and stopping a note\<close>

definition tune_playnote :: "config \<Rightarrow> byte \<Rightarrow> byte \<Rightarrow> byte \<Rightarrow> state \<Rightarrow> error + state" where
  "tune_playnote cfg tgen note vol st =
     (if unat tgen < MAX_TGENS then
        (let tg = tone_gen st (unat tgen);
             volfrac = push_bit 9 (ucast (vol AND 0x7f) + (1::int32)) in
         if 128 \<le> note then
           (let drum_enum = unat (drum_patch_map ! (unat note - 128)) in
            case lookup (drum_waveforms cfg) drum_enum of Inl e \<Rightarrow> Inl e | Inr wtab \<Rightarrow>
           (case lookup drum_waveform_frequencies drum_enum of Inl e \<Rightarrow> Inl e | Inr fr \<Rightarrow>
           (case lookup (drum_waveform_size cfg) drum_enum of Inl e \<Rightarrow> Inl e | Inr sz \<Rightarrow>
              (let vol' = (if BOOST_PERCUSSION then (if 63 < vol then 127 else push_bit 1 vol) else vol);
                   tg' = tg\<lparr>waveform_array := wtab,
                           tone_incr := drum_incr cfg fr,
                           tone_phase := 0,
                           drum_ending_sample_index := sz - 1,
                           percussion := True,
                           env_mult := 0x10000,
                           env_incr := 0,
                           volume_frac := push_bit 9 (ucast (vol' AND 0x7f) + (1::int32)),
                           playing := True\<rparr>
               in Inr (st\<lparr>tone_gen := (tone_gen st)(unat tgen := tg')\<rparr>)))))
         else
           (let note1 = (if note < MIN_NOTE then MIN_NOTE else note);
                note2 = (if MAX_NOTE < note1 then MAX_NOTE else note1) in
            case lookup (instrument_waveforms cfg) (unat (instrument_index tg)) of Inl e \<Rightarrow> Inl e | Inr ins \<Rightarrow>
              (let r = random_byte (seed st);
                   tg' = tg\<lparr>waveform_array := waveforms ins,
                           env_mult := 0,
                           env_count := delay ins,
                           env_state := ENV_DELAY,
                           env_incr := 0,
                           tone_incr := of_nat ((unat (freq4096 ! unat (note2 - MIN_NOTE)) * 0x80000) div rate_trunc cfg),
                           tone_phase := push_bit 23 (ucast r),
                           percussion := False,
                           volume_frac := volfrac,
                           playing := True\<rparr>
               in Inr (st\<lparr>tone_gen := (tone_gen st)(unat tgen := tg'), seed := r\<rparr>))))
      else Inr st)"

definition tune_stopnote :: "config \<Rightarrow> byte \<Rightarrow> state \<Rightarrow> error + state" where
  "tune_stopnote cfg tgen st =
     (if unat tgen < MAX_TGENS then
        (let tg = tone_gen st (unat tgen) in
         if playing tg then
           (if \<not> percussion tg then
              (case lookup (instrument_waveforms cfg) (unat (instrument_index tg)) of Inl e \<Rightarrow> Inl e | Inr ins \<Rightarrow>
              (case c_div cfg (- sustain_level ins) (release ins) of Inl e \<Rightarrow> Inl e | Inr incr \<Rightarrow>
                 Inr (st\<lparr>tone_gen := (tone_gen st)(unat tgen :=
                        tg\<lparr>env_state := ENV_RELEASE,
                           env_count := release ins,
                           env_mult := sustain_level ins,
                           env_incr := incr\<rparr>)\<rparr>)))
            else Inr (st\<lparr>tone_gen := (tone_gen st)(unat tgen := tg\<lparr>playing := False\<rparr>)\<rparr>))
         else Inr st)
      else Inr st)"

text \<open>\<open>for (i = 0; i < MAX_TGENS; ++i) tune_stopnote(i);\<close> over the list of the indices.\<close>

fun tune_stopscore_loop :: "config \<Rightarrow> nat list \<Rightarrow> state \<Rightarrow> error + state" where
  "tune_stopscore_loop cfg [] st = Inr st"
| "tune_stopscore_loop cfg (i # ks) st =
     (case tune_stopnote cfg (of_nat i) st of Inl e \<Rightarrow> Inl e
      | Inr st' \<Rightarrow> tune_stopscore_loop cfg ks st')"

definition tune_stopscore :: "config \<Rightarrow> state \<Rightarrow> error + state" where
  "tune_stopscore cfg st =
     (case tune_stopscore_loop cfg [0..<MAX_TGENS] st of Inl e \<Rightarrow> Inl e
      | Inr st' \<Rightarrow> Inr (st'\<lparr>tune_playing := False\<rparr>))"

definition stop :: "config \<Rightarrow> state \<Rightarrow> error + state" where
  "stop cfg st = tune_stopscore cfg st"


section \<open>The envelope and one sample of a tone generator\<close>

text \<open>
  \<open>signed_multiply_32x16b\<close> of the audio library's \<open>utility/dspinst.h\<close>, which documents
  it as \<open>(((int64_t)a[31:0] * (int64_t)b[15:0]) >> 16)\<close>: the 32-bit \<open>a\<close> times the
  signed low half of \<open>b\<close>, shifted right by 16.
\<close>

definition signed_multiply_32x16b :: "int32 \<Rightarrow> int32 \<Rightarrow> int32" where
  "signed_multiply_32x16b a b = word_of_int ((sint a * sint (ucast b :: int16)) div 2 ^ 16)"

text \<open>The \<open>switch\<close> on the envelope state: one turn of
  \<open>while (tg->env_count == 0)\<close>.\<close>

definition env_switch :: "config \<Rightarrow> tone_gen_t \<Rightarrow> error + tone_gen_t" where
  "env_switch cfg tg =
     (case env_state tg of
        ENV_IDLE \<Rightarrow> Inr (tg\<lparr>env_count := INT_MAX\<rparr>)
      | ENV_DELAY \<Rightarrow>
          (case lookup (instrument_waveforms cfg) (unat (instrument_index tg)) of Inl e \<Rightarrow> Inl e | Inr ins \<Rightarrow>
          (case c_div cfg 0x10000 (attack ins) of Inl e \<Rightarrow> Inl e | Inr incr \<Rightarrow>
             Inr (tg\<lparr>env_state := ENV_ATTACK, env_count := attack ins, env_incr := incr\<rparr>)))
      | ENV_ATTACK \<Rightarrow>
          (case lookup (instrument_waveforms cfg) (unat (instrument_index tg)) of Inl e \<Rightarrow> Inl e | Inr ins \<Rightarrow>
             Inr (tg\<lparr>env_state := ENV_HOLD, env_count := hold ins, env_mult := 0x10000, env_incr := 0\<rparr>))
      | ENV_HOLD \<Rightarrow>
          (case lookup (instrument_waveforms cfg) (unat (instrument_index tg)) of Inl e \<Rightarrow> Inl e | Inr ins \<Rightarrow>
          (case c_div cfg (sustain_level ins - 0x10000) (decay ins) of Inl e \<Rightarrow> Inl e | Inr incr \<Rightarrow>
             Inr (tg\<lparr>env_state := ENV_DECAY, env_count := decay ins, env_mult := 0x10000, env_incr := incr\<rparr>)))
      | ENV_DECAY \<Rightarrow>
          (case lookup (instrument_waveforms cfg) (unat (instrument_index tg)) of Inl e \<Rightarrow> Inl e | Inr ins \<Rightarrow>
             Inr (tg\<lparr>env_state := ENV_SUSTAIN, env_count := INT_MAX, env_mult := sustain_level ins, env_incr := 0\<rparr>))
      | ENV_SUSTAIN \<Rightarrow> Inr (tg\<lparr>env_count := INT_MAX\<rparr>)
      | ENV_RELEASE \<Rightarrow> Inr (tg\<lparr>env_state := ENV_IDLE, playing := False\<rparr>))"

text \<open>The states the \<open>while\<close> loop can still pass through, counted from each state.\<close>

fun env_rank :: "env_state_t \<Rightarrow> nat" where
  "env_rank ENV_IDLE = 1"
| "env_rank ENV_SUSTAIN = 1"
| "env_rank ENV_DECAY = 2"
| "env_rank ENV_RELEASE = 2"
| "env_rank ENV_HOLD = 3"
| "env_rank ENV_ATTACK = 4"
| "env_rank ENV_DELAY = 5"

definition env_measure :: "tone_gen_t \<Rightarrow> nat" where
  "env_measure tg = (if env_count tg = 0 then env_rank (env_state tg) else 0)"

function env_loop :: "config \<Rightarrow> tone_gen_t \<Rightarrow> error + tone_gen_t" where
  "env_loop cfg tg =
     (if env_count tg = 0 then
        (case env_switch cfg tg of Inl e \<Rightarrow> Inl e | Inr tg' \<Rightarrow> env_loop cfg tg')
      else Inr tg)"
  by pat_completeness auto
termination
proof (relation "measure (\<lambda>(cfg, tg). env_measure tg)")
  fix cfg tg tg'
  assume "env_count tg = 0" and "env_switch cfg tg = Inr tg'"
  then have "env_measure tg' < env_measure tg"
    by (cases "env_state tg")
       (auto simp: env_switch_def env_measure_def INT_MAX_def split: sum.splits)
  then show "((cfg, tg'), (cfg, tg)) \<in> measure (\<lambda>(cfg, tg). env_measure tg)"
    by simp
qed simp

text \<open>
  The body of \<open>if (tg->playing)\<close> in \<open>update\<close>: the two indices and the interpolation
  scale, the envelope, the two table reads, the interpolation, the advance of the phase,
  and the contribution of the generator to the mixed level.
\<close>

definition tgen_indices :: "config \<Rightarrow> tone_gen_t \<Rightarrow> error + (tone_gen_t \<times> int32 \<times> int32 \<times> int32)" where
  "tgen_indices cfg tg =
     (if percussion tg then
        (let index1 = signed_drop_bit 17 (tone_phase tg);
             index2 = index1 + 1;
             tg1 = (if ucast (drum_ending_sample_index tg) \<le> index2 then tg\<lparr>playing := False\<rparr> else tg);
             scale = signed_drop_bit 1 (tone_phase tg) AND 0xFFFF
         in Inr (tg1, index1, index2, scale))
      else
        (let index1 = signed_drop_bit 23 (tone_phase tg);
             index2 = (index1 + 1) AND 0xff;
             scale = signed_drop_bit 7 (tone_phase tg) AND 0xFFFF
         in case env_loop cfg tg of Inl e \<Rightarrow> Inl e
            | Inr tg1 \<Rightarrow> Inr (tg1\<lparr>env_count := env_count tg1 - 1\<rparr>, index1, index2, scale)))"

definition tgen_sample :: "config \<Rightarrow> int32 \<Rightarrow> tone_gen_t \<Rightarrow> error + (tone_gen_t \<times> int32)" where
  "tgen_sample cfg amp tg =
     (case tgen_indices cfg tg of Inl e \<Rightarrow> Inl e
      | Inr (tg1, index1, index2, scale) \<Rightarrow>
     (case lookup (waveform_array tg1) (unat index1) of Inl e \<Rightarrow> Inl e | Inr w1 \<Rightarrow>
     (case lookup (waveform_array tg1) (unat index2) of Inl e \<Rightarrow> Inl e | Inr w2 \<Rightarrow>
        (let val1 = scast w1 * (0xFFFF - scale);
             val2 = scast w2 * scale;
             our_level = signed_drop_bit 16 (val1 + val2);
             tg2 = tg1\<lparr>tone_phase := (tone_phase tg1 + tone_incr tg1) AND 0x7fffffff\<rparr>;
             our_level' = signed_multiply_32x16b (env_mult tg2) our_level;
             tg3 = tg2\<lparr>env_mult := env_mult tg2 + env_incr tg2\<rparr>
         in Inr (tg3, signed_multiply_32x16b (volume_frac tg3)
                        (signed_multiply_32x16b amp our_level'))))))"

text \<open>\<open>for (byte tgen = 0; tgen < num_tgens_used; ++tgen)\<close> over the list of the indices;
  an index beyond the array \<open>tone_gen\<close> is a fault.\<close>

fun tgen_loop :: "config \<Rightarrow> int32 \<Rightarrow> nat list \<Rightarrow> (nat \<Rightarrow> tone_gen_t) \<Rightarrow> int32
    \<Rightarrow> error + ((nat \<Rightarrow> tone_gen_t) \<times> int32)" where
  "tgen_loop cfg amp [] tgs level = Inr (tgs, level)"
| "tgen_loop cfg amp (t # ts) tgs level =
     (if MAX_TGENS \<le> t then Inl OutOfBounds
      else if playing (tgs t) then
        (case tgen_sample cfg amp (tgs t) of Inl e \<Rightarrow> Inl e
         | Inr (tg', l) \<Rightarrow> tgen_loop cfg amp ts (tgs(t := tg')) (level + l))
      else tgen_loop cfg amp ts tgs level)"

section \<open>The score\<close>

datatype 'a loop = Continue 'a | Break 'a

text \<open>One turn of \<open>while (1)\<close> in \<open>tune_stepscore\<close>: one command of the bytestream.\<close>

definition tune_stepscore_body :: "config \<Rightarrow> progmem \<Rightarrow> state \<Rightarrow> error + state loop" where
  "tune_stepscore_body cfg mem st =
     (let cmd = mem (score_cursor st);
          st1 = st\<lparr>score_cursor := score_cursor st + 1\<rparr> in
      if cmd < 0x80 then
        (let scorewait_msec = (push_bit 8 (ucast cmd) OR ucast (mem (score_cursor st1)) :: int32);
             st2 = st1\<lparr>score_cursor := score_cursor st1 + 1\<rparr>
         in Inr (Break (st2\<lparr>scorewait_samples :=
                   of_nat ((unat scorewait_msec * 1000 * rate_round cfg) div 1000000)\<rparr>)))
      else
        (let opcode = cmd AND 0xf0;
             tgen = cmd AND 0x0f in
         if opcode = CMD_STOPNOTE then
           (case tune_stopnote cfg tgen st1 of Inl e \<Rightarrow> Inl e | Inr st2 \<Rightarrow> Inr (Continue st2))
         else if opcode = CMD_PLAYNOTE then
           (let note = mem (score_cursor st1);
                st2 = st1\<lparr>score_cursor := score_cursor st1 + 1\<rparr>;
                vol = (if volume_present st2 then mem (score_cursor st2) else 127);
                st3 = (if volume_present st2 then st2\<lparr>score_cursor := score_cursor st2 + 1\<rparr> else st2)
            in case tune_playnote cfg tgen note vol st3 of Inl e \<Rightarrow> Inl e
               | Inr st4 \<Rightarrow> Inr (Continue st4))
         else if opcode = CMD_INSTRUMENT then
           (case lookup instrument_patch_map (unat (mem (score_cursor st1))) of Inl e \<Rightarrow> Inl e
            | Inr ii \<Rightarrow> Inr (Continue (st1\<lparr>score_cursor := score_cursor st1 + 1,
                 tone_gen := (tone_gen st1)(unat tgen := (tone_gen st1 (unat tgen))\<lparr>instrument_index := ii\<rparr>)\<rparr>)))
         else if opcode = CMD_RESTART then
           Inr (Continue (st1\<lparr>score_cursor := score_start st1\<rparr>))
         else if opcode = CMD_STOP then
           (case stop cfg st1 of Inl e \<Rightarrow> Inl e | Inr st2 \<Rightarrow> Inr (Break st2))
         else Inr (Continue st1)))"

text \<open>\<open>tune_stepscore\<close>: the loop may run forever (a restart command with no wait
  before it), so its result is an option and \<open>None\<close> is "does not return".\<close>

partial_function (option) tune_stepscore :: "config \<Rightarrow> progmem \<Rightarrow> state \<Rightarrow> (error + state) option" where
  "tune_stepscore cfg mem st =
     (case tune_stepscore_body cfg mem st of
        Inl e \<Rightarrow> Some (Inl e)
      | Inr (Break st') \<Rightarrow> Some (Inr st')
      | Inr (Continue st') \<Rightarrow> tune_stepscore cfg mem st')"

text \<open>\<open>tune_playscore\<close> up to the call of \<open>tune_stepscore\<close>: the state in which the
  decoding of the score begins.\<close>

definition read_header :: "progmem \<Rightarrow> nat \<Rightarrow> file_hdr_t" where
  "read_header mem score =
     \<lparr>id1 = mem score, id2 = mem (score + 1), hdr_length = mem (score + 2),
      f1 = mem (score + 3), f2 = mem (score + 4), num_tgens = mem (score + 5)\<rparr>"

definition tune_playscore_init :: "config \<Rightarrow> progmem \<Rightarrow> nat \<Rightarrow> state \<Rightarrow> error + state" where
  "tune_playscore_init cfg mem score st =
     (case (if tune_playing st then stop cfg st else Inr st) of Inl e \<Rightarrow> Inl e
      | Inr st1 \<Rightarrow>
        (let st2 = st1\<lparr>score_start := score, volume_present := ASSUME_VOLUME,
                       num_tgens_used := of_nat MAX_TGENS\<rparr>;
             st3 = st2\<lparr>tone_gen := (\<lambda>tgen. if tgen < MAX_TGENS
                        then (tone_gen st2 tgen)\<lparr>instrument_index := I_PIANO\<rparr>
                        else tone_gen st2 tgen)\<rparr>;
             st4 = st3\<lparr>file_header := read_header mem score\<rparr>;
             st5 = (if id1 (file_header st4) = 0x50 \<and> id2 (file_header st4) = 0x74 then
                      st4\<lparr>volume_present := (f1 (file_header st4) AND HDR_F1_VOLUME_PRESENT \<noteq> 0),
                          num_tgens_used := max 1 (min (of_nat MAX_TGENS) (num_tgens (file_header st4))),
                          score_start := score_start st4 + unat (hdr_length (file_header st4))\<rparr>
                    else st4);
             st6 = st5\<lparr>amplitude_fraction := mixer_amplitude_fractions ! unat (num_tgens_used st5)\<rparr>
         in Inr (st6\<lparr>score_cursor := score_start st6\<rparr>)))"

definition tune_playscore :: "config \<Rightarrow> progmem \<Rightarrow> nat \<Rightarrow> state \<Rightarrow> (error + state) option" where
  "tune_playscore cfg mem score st =
     (case tune_playscore_init cfg mem score st of Inl e \<Rightarrow> Some (Inl e)
      | Inr st1 \<Rightarrow>
        (case tune_stepscore cfg mem st1 of None \<Rightarrow> None
         | Some (Inl e) \<Rightarrow> Some (Inl e)
         | Some (Inr st2) \<Rightarrow> Some (Inr (st2\<lparr>tune_playing := True\<rparr>))))"

text \<open>The two overloads of \<open>play\<close>.\<close>

definition play_n :: "config \<Rightarrow> progmem \<Rightarrow> nat \<Rightarrow> int32 \<Rightarrow> state \<Rightarrow> (error + state) option" where
  "play_n cfg mem score n st = tune_playscore cfg mem score (st\<lparr>num_tgens_used := ucast n\<rparr>)"

definition play :: "config \<Rightarrow> progmem \<Rightarrow> nat \<Rightarrow> state \<Rightarrow> (error + state) option" where
  "play cfg mem score st = play_n cfg mem score (of_nat MAX_TGENS) st"

section \<open>Rendering\<close>

text \<open>The body of \<open>for (int sample = 0; ...)\<close> in \<open>update\<close>: the state after the sample
  and the value stored into \<open>block->data[sample]\<close>, an \<open>int16_t\<close>.\<close>

definition update_sample :: "config \<Rightarrow> progmem \<Rightarrow> state \<Rightarrow> (error + (state \<times> int16)) option" where
  "update_sample cfg mem st =
     (case (if tune_playing st \<and> scorewait_samples st \<noteq> 0 then
              (let st1 = st\<lparr>scorewait_samples := scorewait_samples st - 1\<rparr> in
               if scorewait_samples st1 = 0 then tune_stepscore cfg mem st1 else Some (Inr st1))
            else Some (Inr st)) of
        None \<Rightarrow> None
      | Some (Inl e) \<Rightarrow> Some (Inl e)
      | Some (Inr st2) \<Rightarrow>
          (case tgen_loop cfg (amplitude_fraction st2) [0..<unat (num_tgens_used st2)] (tone_gen st2) 0 of
             Inl e \<Rightarrow> Some (Inl e)
           | Inr (tgs, level) \<Rightarrow> Some (Inr (st2\<lparr>tone_gen := tgs\<rparr>, ucast level))))"

text \<open>\<open>update\<close> for a block of \<open>n\<close> samples (\<open>AUDIO_BLOCK_SAMPLES\<close> in the audio library);
  nothing happens when no block could be allocated.\<close>

fun update_block :: "config \<Rightarrow> progmem \<Rightarrow> nat \<Rightarrow> state \<Rightarrow> (error + (state \<times> int16 list)) option" where
  "update_block cfg mem 0 st = Some (Inr (st, []))"
| "update_block cfg mem (Suc n) st =
     (case update_sample cfg mem st of None \<Rightarrow> None
      | Some (Inl e) \<Rightarrow> Some (Inl e)
      | Some (Inr (st1, x)) \<Rightarrow>
          (case update_block cfg mem n st1 of None \<Rightarrow> None
           | Some (Inl e) \<Rightarrow> Some (Inl e)
           | Some (Inr (st2, xs)) \<Rightarrow> Some (Inr (st2, x # xs))))"

definition update :: "config \<Rightarrow> progmem \<Rightarrow> nat \<Rightarrow> bool \<Rightarrow> state \<Rightarrow> (error + (state \<times> int16 list)) option" where
  "update cfg mem n allocated st =
     (if allocated then update_block cfg mem n st else Some (Inr (st, [])))"

section \<open>Concrete data\<close>

text \<open>A program memory that holds the bytes \<open>bs\<close> from address 0 on, and the stop command
  in every address after them.\<close>

definition flash :: "byte list \<Rightarrow> progmem" where
  "flash bs = (\<lambda>a. if a < length bs then bs ! a else 0xF0)"

text \<open>The object before the first call of \<open>play\<close>: the initialisers of the class, zeroes
  in the members that have none, and the initial \<open>seed\<close>.\<close>

definition silent_tgen :: tone_gen_t where
  "silent_tgen = \<lparr>tone_phase = 0, tone_incr = 0, volume_frac = 0, drum_ending_sample_index = 0,
     instrument_index = 0, playing = False, percussion = False, env_state = ENV_IDLE,
     env_mult = 0, env_incr = 0, env_count = 0, waveform_array = []\<rparr>"

definition initial_state :: state where
  "initial_state = \<lparr>tune_playing = False, num_tgens_used = of_nat MAX_TGENS,
     amplitude_fraction = 0x10000, volume_present = ASSUME_VOLUME, num_tgens_playing_last = 0,
     score_start = 0, score_cursor = 0, scorewait_samples = 0,
     tone_gen = (\<lambda>tgen. silent_tgen),
     file_header = \<lparr>id1 = 0, id2 = 0, hdr_length = 0, f1 = 0, f2 = 0, num_tgens = 0\<rparr>,
     seed = 23\<rparr>"

definition instrument :: "int16 list \<Rightarrow> int32 \<Rightarrow> int32 \<Rightarrow> int32 \<Rightarrow> int32 \<Rightarrow> int32 \<Rightarrow> int32
    \<Rightarrow> instrument_waveform_t" where
  "instrument w dl at hl dc rl lv =
     \<lparr>waveforms = w, delay = dl, attack = at, hold = hl, decay = dc, release = rl,
      sustain_level = lv\<rparr>"

text \<open>
  The table \<open>instrument_waveforms\<close> of the source for \<open>AUDIO_SAMPLE_RATE = 44117.64706\<close>:
  \<open>ms2cnt\<close> of 0, 10, 2, 30 and 60 msec is 0, 441, 88, 1323 and 2647, and \<open>lv2fr(0.60)\<close>
  is 39321. The fifteen wave tables are given by \<open>w\<close>; \<open>I_PIANO\<close>, the fourteenth entry,
  has the longer release.
\<close>

definition source_instruments :: "(nat \<Rightarrow> int16 list) \<Rightarrow> instrument_waveform_t list" where
  "source_instruments w =
     [instrument (w 0) 0 441 88 1323 1323 39321, instrument (w 1) 0 441 88 1323 1323 39321,
      instrument (w 2) 0 441 88 1323 1323 39321, instrument (w 3) 0 441 88 1323 1323 39321,
      instrument (w 4) 0 441 88 1323 1323 39321, instrument (w 5) 0 441 88 1323 1323 39321,
      instrument (w 6) 0 441 88 1323 1323 39321, instrument (w 7) 0 441 88 1323 1323 39321,
      instrument (w 8) 0 441 88 1323 1323 39321, instrument (w 9) 0 441 88 1323 1323 39321,
      instrument (w 10) 0 441 88 1323 1323 39321, instrument (w 11) 0 441 88 1323 1323 39321,
      instrument (w 12) 0 441 88 1323 1323 39321, instrument (w 13) 0 441 88 1323 2647 39321,
      instrument (w 14) 0 441 88 1323 1323 39321]"

text \<open>A configuration for running the model: the source's instruments with wave tables
  that hold the largest sample everywhere, percussion tables of two such samples, the
  sample rate 44117.64706, and a division that yields 0 for the divisor zero.\<close>

definition test_config :: config where
  "test_config =
     \<lparr>instrument_waveforms = source_instruments (\<lambda>i. replicate 256 32767),
      drum_waveforms = replicate 6 [32767, 32767],
      drum_waveform_size = replicate 6 2,
      drum_incr = (\<lambda>f. if f = 4000 then 11883 else 23767),
      rate_trunc = 44117, rate_round = 44118, div_by_zero = Some 0\<rparr>"

section \<open>Notions used in the statements\<close>

text \<open>The state carried by a turn of the loop of \<open>tune_stepscore\<close>.\<close>

fun loop_state :: "'a loop \<Rightarrow> 'a" where
  "loop_state (Continue s) = s"
| "loop_state (Break s) = s"

text \<open>Two states agree on every member but the generators and the random seed.\<close>

definition same_control :: "state \<Rightarrow> state \<Rightarrow> bool" where
  "same_control st st' \<longleftrightarrow>
     tune_playing st' = tune_playing st \<and> num_tgens_used st' = num_tgens_used st \<and>
     amplitude_fraction st' = amplitude_fraction st \<and> volume_present st' = volume_present st \<and>
     num_tgens_playing_last st' = num_tgens_playing_last st \<and>
     score_start st' = score_start st \<and> score_cursor st' = score_cursor st \<and>
     scorewait_samples st' = scorewait_samples st \<and> file_header st' = file_header st"

text \<open>Two states agree on what \<open>tune_playscore\<close> sets up from the header.\<close>

definition same_setup :: "state \<Rightarrow> state \<Rightarrow> bool" where
  "same_setup st st' \<longleftrightarrow> volume_present st' = volume_present st \<and>
     num_tgens_used st' = num_tgens_used st \<and> amplitude_fraction st' = amplitude_fraction st \<and>
     score_start st' = score_start st"

text \<open>Scores: a header for four generators with velocities, one note and a wait; and a
  header for one generator, a note, a wait and the restart command.\<close>

definition header_score :: "byte list" where
  "header_score = [0x50, 0x74, 6, 0x80, 0, 4, 0x90, 60, 100, 0, 100]"

definition restart_score :: "byte list" where
  "restart_score = [0x50, 0x74, 6, 0, 0, 1, 0x90, 60, 0, 100, 0xE0]"

text \<open>The state in which \<open>play\<close> leaves the object on \<open>header_score\<close> under
  \<open>test_config\<close>: generator 0 has started middle C on the piano.\<close>

definition note_tgen :: tone_gen_t where
  "note_tgen = \<lparr>tone_phase = 92274688, tone_incr = 12735146, volume_frac = 51712,
     drum_ending_sample_index = 0, instrument_index = 13, playing = True, percussion = False,
     env_state = ENV_DELAY, env_mult = 0, env_incr = 0, env_count = 0,
     waveform_array = replicate 256 32767\<rparr>"

definition header_score_state :: state where
  "header_score_state = \<lparr>tune_playing = True, num_tgens_used = 4, amplitude_fraction = 26214,
     volume_present = True, num_tgens_playing_last = 0, score_start = 6, score_cursor = 11,
     scorewait_samples = 4411,
     tone_gen = (\<lambda>tgen. if tgen < 16 then silent_tgen\<lparr>instrument_index := 13\<rparr> else silent_tgen)
                  (0 := note_tgen),
     file_header = \<lparr>id1 = 0x50, id2 = 0x74, hdr_length = 6, f1 = 0x80, f2 = 0, num_tgens = 4\<rparr>,
     seed = 11\<rparr>"

text \<open>A generator after \<open>tune_stopnote\<close>, when that does not fault.\<close>

definition released :: "config \<Rightarrow> tone_gen_t \<Rightarrow> tone_gen_t" where
  "released cfg tg =
     (if \<not> playing tg then tg
      else if percussion tg then tg\<lparr>playing := False\<rparr>
      else (let ins = instrument_waveforms cfg ! unat (instrument_index tg) in
            tg\<lparr>env_state := ENV_RELEASE, env_count := release ins,
               env_mult := sustain_level ins,
               env_incr := word_of_int (sint (- sustain_level ins) sdiv sint (release ins))\<rparr>))"

text \<open>\<open>tune_stopnote\<close> does not fault on a generator: its instrument exists and has a
  release count other than zero, if it is playing a regular instrument.\<close>

definition releasable :: "config \<Rightarrow> tone_gen_t \<Rightarrow> bool" where
  "releasable cfg tg \<longleftrightarrow>
     (playing tg \<and> \<not> percussion tg \<longrightarrow>
        unat (instrument_index tg) < length (instrument_waveforms cfg) \<and>
        release (instrument_waveforms cfg ! unat (instrument_index tg)) \<noteq> 0)"

text \<open>
  No command of the score is decoded during the next \<open>n\<close> samples of \<open>update\<close>:
  playback is inactive, or no wait is pending, or more than \<open>n\<close> samples of the pending
  wait remain.
\<close>

definition quiet :: "nat \<Rightarrow> state \<Rightarrow> bool" where
  "quiet n st \<longleftrightarrow> \<not> tune_playing st \<or> scorewait_samples st = 0 \<or> n < unat (scorewait_samples st)"

text \<open>A generator that is off, or that plays a regular instrument in the release state,
  with a wave table of 256 samples and a phase that is not negative.\<close>

definition fading :: "tone_gen_t \<Rightarrow> bool" where
  "fading tg \<longleftrightarrow>
     (playing tg \<longrightarrow> \<not> percussion tg \<and> env_state tg = ENV_RELEASE \<and>
        length (waveform_array tg) = 256 \<and> 0 \<le> sint (tone_phase tg))"



definition loud_score :: "byte list" where
  "loud_score = [0x50, 0x74, 6, 0x80, 0, 2, 0x90, 128, 127, 0x91, 128, 127, 0, 100]"

text \<open>The states in which \<open>play\<close> leaves the object on these scores: the generators have
  the default instrument, and those of the score have started their notes.\<close>

definition idle_tgens :: "nat \<Rightarrow> tone_gen_t" where
  "idle_tgens = (\<lambda>tgen. if tgen < 16 then silent_tgen\<lparr>instrument_index := 13\<rparr> else silent_tgen)"

definition drum_tgen :: tone_gen_t where
  "drum_tgen = \<lparr>tone_phase = 0, tone_incr = 11883, volume_frac = 65536,
     drum_ending_sample_index = 1, instrument_index = 13, playing = True, percussion = True,
     env_state = ENV_IDLE, env_mult = 65536, env_incr = 0, env_count = 0,
     waveform_array = [32767, 32767]\<rparr>"

definition short_score_state :: state where
  "short_score_state = \<lparr>tune_playing = True, num_tgens_used = 16, amplitude_fraction = 6553,
     volume_present = False, num_tgens_playing_last = 0, score_start = 0, score_cursor = 4,
     scorewait_samples = 4411,
     tone_gen = idle_tgens(0 := note_tgen\<lparr>volume_frac := 65536\<rparr>),
     file_header = \<lparr>id1 = 0x90, id2 = 60, hdr_length = 0, f1 = 100, f2 = 0xF0, num_tgens = 0xF0\<rparr>,
     seed = 11\<rparr>"

definition zero_wait_state :: state where
  "zero_wait_state = \<lparr>tune_playing = True, num_tgens_used = 16, amplitude_fraction = 6553,
     volume_present = False, num_tgens_playing_last = 0, score_start = 0, score_cursor = 6,
     scorewait_samples = 0,
     tone_gen = idle_tgens(0 := note_tgen\<lparr>volume_frac := 65536\<rparr>, 1 := drum_tgen),
     file_header = \<lparr>id1 = 0x90, id2 = 60, hdr_length = 0x91, f1 = 128, f2 = 0, num_tgens = 0\<rparr>,
     seed = 11\<rparr>"

definition loud_state :: state where
  "loud_state = \<lparr>tune_playing = True, num_tgens_used = 2, amplitude_fraction = 39321,
     volume_present = True, num_tgens_playing_last = 0, score_start = 6, score_cursor = 14,
     scorewait_samples = 4411,
     tone_gen = idle_tgens(0 := drum_tgen, 1 := drum_tgen),
     file_header = \<lparr>id1 = 0x50, id2 = 0x74, hdr_length = 6, f1 = 0x80, f2 = 0, num_tgens = 2\<rparr>,
     seed = 23\<rparr>"


text \<open>
  What the reads of the wave table rely on, for a generator that is playing: the phase is
  not negative; a regular instrument has a table of 256 samples; a percussion instrument
  advances by at most one sample of its table per output sample, its ending index lies
  in its table, and the index of its phase lies below the ending index.
\<close>

definition tgen_ok :: "tone_gen_t \<Rightarrow> bool" where
  "tgen_ok tg \<longleftrightarrow>
     (playing tg \<longrightarrow> 0 \<le> sint (tone_phase tg) \<and>
        (if percussion tg then
           0 \<le> sint (tone_incr tg) \<and> sint (tone_incr tg) \<le> 0x20000 \<and>
           unat (drum_ending_sample_index tg) < length (waveform_array tg) \<and>
           unat (signed_drop_bit 17 (tone_phase tg)) < unat (drum_ending_sample_index tg)
         else length (waveform_array tg) = 256))"

definition state_ok :: "state \<Rightarrow> bool" where
  "state_ok st \<longleftrightarrow> (\<forall>i<MAX_TGENS. tgen_ok (tone_gen st i))"

text \<open>
  What the tables outside the source have to satisfy: the wave table of an instrument has
  256 samples; a percussion table has at least two samples and no fewer than its entry of
  \<open>drum_waveform_size\<close> says; and the sampling frequency of a percussion table is at
  most the output sample rate, so that its increment is at most \<open>0x20000\<close>.
\<close>

definition config_ok :: "config \<Rightarrow> bool" where
  "config_ok cfg \<longleftrightarrow>
     (\<forall>ins\<in>set (instrument_waveforms cfg). length (waveforms ins) = 256) \<and>
     (\<forall>f\<in>set drum_waveform_frequencies.
        0 \<le> sint (drum_incr cfg f) \<and> sint (drum_incr cfg f) \<le> 0x20000) \<and>
     (\<forall>d<length (drum_waveforms cfg). d < length (drum_waveform_size cfg) \<longrightarrow>
        2 \<le> unat (drum_waveform_size cfg ! d) \<and>
        unat (drum_waveform_size cfg ! d) \<le> length (drum_waveforms cfg ! d))"

section \<open>Evaluation and frame lemmas\<close>

lemmas cmd_defs = CMD_STOPNOTE_def CMD_PLAYNOTE_def CMD_INSTRUMENT_def CMD_RESTART_def CMD_STOP_def

lemmas eval_defs = tune_playscore_def tune_playscore_init_def read_header_def
  tune_stepscore_body_def tune_playnote_def tune_stopnote_def stop_def tune_stopscore_def
  lookup_def c_div_def Let_def cmd_defs MAX_TGENS_def ASSUME_VOLUME_def BOOST_PERCUSSION_def
  HDR_F1_VOLUME_PRESENT_def MIN_NOTE_def MAX_NOTE_def INT_MAX_def random_byte_def
  initial_state_def silent_tgen_def test_config_def source_instruments_def instrument_def
  mixer_amplitude_fractions_def freq4096_def drum_patch_map_def instrument_patch_map_def
  drum_waveform_frequencies_def

lemma flash_nth: "flash bs a = (if a < length bs then bs ! a else 0xF0)"
  by (simp add: flash_def)

lemma tune_stopnote_frame:
  "tune_stopnote cfg t st = Inr st' \<Longrightarrow> same_control st st' \<and> seed st' = seed st"
  by (auto simp: tune_stopnote_def same_control_def Let_def split: if_splits sum.splits)

lemma tune_stopscore_loop_frame:
  "tune_stopscore_loop cfg ks st = Inr st' \<Longrightarrow> same_control st st' \<and> seed st' = seed st"
proof (induction ks arbitrary: st)
  case Nil
  then show ?case by (simp add: same_control_def)
next
  case (Cons k ks)
  from Cons.prems obtain st1 where 1: "tune_stopnote cfg (of_nat k) st = Inr st1"
    and 2: "tune_stopscore_loop cfg ks st1 = Inr st'"
    by (auto split: sum.splits)
  from tune_stopnote_frame [OF 1] Cons.IH [OF 2] show ?case
    by (simp add: same_control_def)
qed

lemma stop_frame:
  "stop cfg st = Inr st' \<Longrightarrow> same_control (st\<lparr>tune_playing := False\<rparr>) st' \<and> seed st' = seed st"
  by (auto simp: stop_def tune_stopscore_def same_control_def split: sum.splits
      dest!: tune_stopscore_loop_frame)

lemma tune_playnote_frame:
  "tune_playnote cfg t note vol st = Inr st' \<Longrightarrow> same_control st st'"
  by (auto simp: tune_playnote_def same_control_def Let_def split: if_splits sum.splits)

lemma body_same_setup:
  "tune_stepscore_body cfg mem st = Inr r \<Longrightarrow> same_setup st (loop_state r)"
  by (auto simp: tune_stepscore_body_def Let_def same_setup_def same_control_def
      split: if_splits sum.splits dest!: tune_stopnote_frame tune_playnote_frame stop_frame)

lemma stepscore_same_setup:
  assumes "tune_stepscore cfg mem st = Some y" and "y = Inr st'"
  shows "same_setup st st'"
  using assms
proof (induction arbitrary: st' rule: tune_stepscore.raw_induct [rotated 1, consumes 1])
  case (1 step cfg mem st y)
  show ?case
  proof (cases "tune_stepscore_body cfg mem st")
    case (Inl e)
    with 1 show ?thesis by simp
  next
    case (Inr r)
    note b = body_same_setup [OF Inr]
    show ?thesis
    proof (cases r)
      case (Continue s)
      with 1 Inr have "same_setup s st'" by simp
      with b Continue show ?thesis by (simp add: same_setup_def)
    next
      case (Break s)
      with 1 Inr b show ?thesis by simp
    qed
  qed
qed


declare env_loop.simps [simp del]


lemma tune_stopnote_released:
  assumes "unat t < MAX_TGENS" and "releasable cfg (tone_gen st (unat t))"
  shows "tune_stopnote cfg t st
     = Inr (st\<lparr>tone_gen := (tone_gen st)(unat t := released cfg (tone_gen st (unat t)))\<rparr>)"
  using assms
  by (simp add: tune_stopnote_def releasable_def released_def lookup_def c_div_def Let_def)


subsection \<open>Words\<close>

lemma sint_nonneg_uint:
  fixes w :: "'a::len word"
  assumes "0 \<le> sint w"
  shows "uint w = sint w"
proof -
  have "sint w < 2 ^ (LENGTH('a) - 1)" by (rule sint_lt)
  also have "(2::int) ^ (LENGTH('a) - 1) \<le> 2 ^ LENGTH('a)"
    by (rule power_increasing) simp_all
  finally have "sint w < 2 ^ LENGTH('a)" .
  with assms have "take_bit LENGTH('a) (sint w) = sint w"
    by (intro take_bit_int_eq_self)
  then show ?thesis
    by (simp only: uint_sint)
qed

lemma uint_small_sint:
  fixes w :: int32
  assumes "uint w < 2 ^ 31"
  shows "sint w = uint w"
proof -
  have "- (2 ^ 31) \<le> (0::int)" by simp
  also have "0 \<le> uint w" by simp
  finally have "- (2 ^ 31) \<le> uint w" .
  with assms have "signed_take_bit 31 (uint w) = uint w"
    by (intro signed_take_bit_int_eq_self)
  moreover have "sint w = signed_take_bit (LENGTH(32) - Suc 0) (uint w)"
    by (rule sint_uint)
  ultimately show ?thesis by simp
qed

lemma melodic_index1:
  fixes p :: int32
  assumes "0 \<le> sint p"
  shows "unat (signed_drop_bit 23 p) < 256"
proof -
  have lt: "sint p < 2 ^ 31" using sint_lt [of p] by simp
  have s: "sint (signed_drop_bit 23 p) = sint p div 2 ^ 23"
    by (simp only: sint_signed_drop_bit_eq drop_bit_eq_div)
  have a: "0 \<le> sint p div 2 ^ 23" using assms by simp
  have b: "sint p div 2 ^ 23 < 256" using lt by simp
  from a s have "0 \<le> sint (signed_drop_bit 23 p)" by (simp only:)
  then have "uint (signed_drop_bit 23 p) = sint (signed_drop_bit 23 p)"
    by (rule sint_nonneg_uint)
  with s b have "uint (signed_drop_bit 23 p) < 256" by (simp only:)
  then have "signed_drop_bit 23 p < 256" by (simp add: word_less_def)
  then show ?thesis by (simp add: word_less_nat_alt)
qed

lemma melodic_index2:
  fixes i :: int32
  shows "unat ((i + 1) AND 0xff) < 256"
proof -
  have "(i + 1) AND 0xff \<le> 0xff" by (rule word_and_le1)
  then show ?thesis by (simp add: word_le_nat_alt)
qed

lemma phase_mask_nonneg:
  fixes x :: int32
  shows "0 \<le> sint (x AND 0x7fffffff)"
proof -
  have "x AND 0x7fffffff \<le> 0x7fffffff" by (rule word_and_le1)
  then have "uint (x AND 0x7fffffff) < 2 ^ 31" by (simp add: word_le_def)
  then have "sint (x AND 0x7fffffff) = uint (x AND 0x7fffffff)" by (rule uint_small_sint)
  then show ?thesis by simp
qed


subsection \<open>The envelope loop and one sample of a regular instrument\<close>

lemma env_loop_nonzero: "env_count tg \<noteq> 0 \<Longrightarrow> env_loop cfg tg = Inr tg"
  by (simp add: env_loop.simps)

lemma env_loop_zero:
  "env_count tg = 0 \<Longrightarrow> env_loop cfg tg
     = (case env_switch cfg tg of Inl e \<Rightarrow> Inl e | Inr tg' \<Rightarrow> env_loop cfg tg')"
  by (subst env_loop.simps) simp

lemma env_loop_release:
  assumes "env_state tg = ENV_RELEASE" and "env_count tg = 0"
  shows "env_loop cfg tg = Inr (tg\<lparr>env_state := ENV_IDLE, playing := False, env_count := INT_MAX\<rparr>)"
proof -
  let ?tg1 = "tg\<lparr>env_state := ENV_IDLE, playing := False\<rparr>"
  let ?tg2 = "?tg1\<lparr>env_count := INT_MAX\<rparr>"
  have 1: "env_switch cfg tg = Inr ?tg1" using assms by (simp add: env_switch_def)
  have 2: "env_switch cfg ?tg1 = Inr ?tg2" by (simp add: env_switch_def)
  have 3: "env_loop cfg ?tg2 = Inr ?tg2" by (rule env_loop_nonzero) (simp add: INT_MAX_def)
  have "env_loop cfg tg = env_loop cfg ?tg1" using assms by (simp add: env_loop_zero 1)
  also have "\<dots> = env_loop cfg ?tg2" using assms by (simp add: env_loop_zero 2)
  finally show ?thesis using 3 by simp
qed

lemma melodic_sample_reads:
  assumes "\<not> percussion tg" and "env_loop cfg tg = Inr tg1"
    and "waveform_array tg1 = waveform_array tg"
    and "length (waveform_array tg) = 256" and "0 \<le> sint (tone_phase tg)"
  shows "\<exists>l. tgen_sample cfg amp tg
     = Inr (tg1\<lparr>env_count := env_count tg1 - 1,
                tone_phase := (tone_phase tg1 + tone_incr tg1) AND 0x7fffffff,
                env_mult := env_mult tg1 + env_incr tg1\<rparr>, l)"
  using assms melodic_index1 [OF assms(5)] melodic_index2 [of "signed_drop_bit 23 (tone_phase tg)"]
  by (simp add: tgen_sample_def tgen_indices_def lookup_def Let_def)


subsection \<open>Running the scores\<close>

lemmas play_defs = play_def play_n_def tune_playscore_def tune_playscore_init_def read_header_def
  Let_def initial_state_def flash_nth MAX_TGENS_def ASSUME_VOLUME_def HDR_F1_VOLUME_PRESENT_def
  mixer_amplitude_fractions_def

lemmas sample_defs = update_sample_def tgen_sample_def tgen_indices_def env_switch_def
  signed_multiply_32x16b_def lookup_def c_div_def Let_def MAX_TGENS_def INT_MAX_def

lemmas state_defs = short_score_state_def zero_wait_state_def loud_state_def idle_tgens_def
  note_tgen_def drum_tgen_def silent_tgen_def


lemma upt_2: "[0..<2] = [0, 1::nat]"
  by code_simp

lemma upt_4: "[0..<4] = [0, 1, 2, 3::nat]"
  by code_simp



lemma loud_score_result:
  "play test_config (flash loud_score) 0 initial_state = Some (Inr loud_state)"
  apply (simp add: play_defs loud_score_def)
  apply (subst tune_stepscore.simps)
  apply (simp add: eval_defs flash_nth loud_score_def)
  apply (subst tune_stepscore.simps)
  apply (simp add: eval_defs flash_nth loud_score_def)
  apply (subst tune_stepscore.simps)
  apply (simp add: eval_defs flash_nth loud_score_def)
  apply (simp add: state_defs fun_eq_iff)
  done

section \<open>The random phase of a note\<close>

lemma xor_push_bit_zero:
  fixes x :: "'a::len word"
  assumes "x XOR push_bit n x = 0" and "0 < n"
  shows "x = 0"
proof -
  have "x = (x XOR push_bit n x) XOR push_bit n x"
    by (simp add: xor.assoc)
  with assms(1) have eq: "x = push_bit n x"
    by simp
  have "\<not> bit x k" for k
  proof (induction k rule: less_induct)
    case (less k)
    show ?case
    proof
      assume "bit x k"
      then have "bit (push_bit n x) k" using eq by simp
      then have "n \<le> k" and "bit x (k - n)" by (simp_all add: bit_push_bit_iff)
      with less [of "k - n"] assms(2) show False by simp
    qed
  qed
  then show ?thesis by (simp add: bit_eq_iff)
qed

lemma xor_drop_bit_zero:
  fixes x :: "'a::len word"
  assumes "x XOR drop_bit n x = 0" and "0 < n"
  shows "x = 0"
proof -
  have "x = (x XOR drop_bit n x) XOR drop_bit n x"
    by (simp add: xor.assoc)
  with assms(1) have eq: "x = drop_bit n x"
    by simp
  have "\<not> bit x k" for k
  proof (induction "LENGTH('a) - k" arbitrary: k rule: less_induct)
    case less
    show ?case
    proof
      assume b: "bit x k"
      then have "bit (drop_bit n x) k" using eq by simp
      then have b2: "bit x (n + k)" by (simp add: bit_drop_bit_eq)
      then have "n + k < LENGTH('a)" by (rule bit_imp_le_length)
      with assms(2) have "LENGTH('a) - (n + k) < LENGTH('a) - k" by arith
      with less [of "n + k"] b2 show False by simp
    qed
  qed
  then show ?thesis by (simp add: bit_eq_iff)
qed

lemma random_byte_zero: "random_byte s = 0 \<Longrightarrow> s = 0"
proof -
  assume a: "random_byte s = 0"
  define s1 where "s1 = s XOR push_bit 7 s"
  define s2 where "s2 = s1 XOR drop_bit 5 s1"
  from a have "s2 XOR push_bit 3 s2 = 0"
    by (simp add: random_byte_def Let_def s1_def s2_def)
  then have "s2 = 0" by (rule xor_push_bit_zero) simp
  then have "s1 = 0" unfolding s2_def by (rule xor_drop_bit_zero) simp
  then show "s = 0" unfolding s1_def by (rule xor_push_bit_zero) simp
qed

lemma random_byte_iterate: "s \<noteq> 0 \<Longrightarrow> (random_byte ^^ n) s \<noteq> 0"
  by (induction n) (auto dest: random_byte_zero)

lemma byte_phase_positive:
  fixes r :: byte
  assumes "r \<noteq> 0"
  shows "0 < sint (push_bit 23 (ucast r :: int32))"
proof -
  have r: "0 < uint r" "uint r < 256"
    using assms uint_lt2p [of r] by (simp_all add: word_neq_0_conv word_less_def)
  have "push_bit 23 (ucast r :: int32) = word_of_int (uint r * 2 ^ 23)"
    by (simp add: push_bit_eq_mult)
  moreover have "sint (word_of_int (uint r * 2 ^ 23) :: int32)
      = signed_take_bit (LENGTH(32) - 1) (uint r * 2 ^ 23)"
    by (rule sint_sbintrunc')
  moreover have "signed_take_bit (LENGTH(32) - 1) (uint r * 2 ^ 23) = uint r * 2 ^ 23"
    using r by (simp add: signed_take_bit_int_eq_self)
  ultimately show ?thesis using r by simp
qed

text \<open>
  Claim C8. The byte generator never yields 0 when started from its seed 23, and a note
  on a regular instrument (a note number below 128, on a generator below \<open>MAX_TGENS\<close>)
  that finds a nonzero seed leaves a nonzero seed and sets the phase of the generator to
  the new random byte shifted left by 23, a strictly positive number.
\<close>

theorem random_phase_never_zero:
  "(random_byte ^^ n) 23 \<noteq> 0 \<and>
   (seed st \<noteq> 0 \<and> unat tgen < MAX_TGENS \<and> note < 128 \<and>
    tune_playnote cfg tgen note vol st = Inr st' \<longrightarrow>
      seed st' = random_byte (seed st) \<and> seed st' \<noteq> 0 \<and>
      tone_phase (tone_gen st' (unat tgen)) = push_bit 23 (ucast (seed st')) \<and>
      0 < sint (tone_phase (tone_gen st' (unat tgen))))"
proof (intro conjI impI)
  show "(random_byte ^^ n) 23 \<noteq> 0"
    by (rule random_byte_iterate) simp
next
  assume h: "seed st \<noteq> 0 \<and> unat tgen < MAX_TGENS \<and> note < 128 \<and>
    tune_playnote cfg tgen note vol st = Inr st'"
  then have nz: "random_byte (seed st) \<noteq> 0"
    by (auto dest: random_byte_zero)
  from h have st': "seed st' = random_byte (seed st)"
      "tone_phase (tone_gen st' (unat tgen)) = push_bit 23 (ucast (random_byte (seed st)))"
    by (auto simp: tune_playnote_def Let_def split: sum.splits if_splits)
  show "seed st' = random_byte (seed st)" by (rule st')
  show "seed st' \<noteq> 0" using st' nz by simp
  show "tone_phase (tone_gen st' (unat tgen)) = push_bit 23 (ucast (seed st'))"
    using st' by simp
  show "0 < sint (tone_phase (tone_gen st' (unat tgen)))"
    using st' byte_phase_positive [OF nz] by simp
qed


theorem random_phase_never_zero_witness:
  "seed initial_state \<noteq> 0 \<and> unat (0::byte) < MAX_TGENS \<and> (60::byte) < 128 \<and>
   tune_playnote test_config 0 60 127 initial_state
     = Inr (projr (tune_playnote test_config 0 60 127 initial_state)) \<and>
   seed (projr (tune_playnote test_config 0 60 127 initial_state)) = 11 \<and>
   0 < sint (tone_phase (tone_gen (projr (tune_playnote test_config 0 60 127 initial_state)) 0))"
proof -
  have h: "tune_playnote test_config 0 60 127 initial_state
     = Inr (projr (tune_playnote test_config 0 60 127 initial_state))"
    by (simp add: eval_defs)
  have s: "seed initial_state = 23"
    by (simp add: initial_state_def)
  from random_phase_never_zero [of _ initial_state 0 60 test_config 127
      "projr (tune_playnote test_config 0 60 127 initial_state)"] h s
  show ?thesis
    by (simp add: MAX_TGENS_def random_byte_def)
qed

section \<open>The generator count given to \<open>play\<close>\<close>

lemma tune_stopnote_num_tgens:
  "tune_stopnote cfg t (st\<lparr>num_tgens_used := x\<rparr>)
     = map_sum id (\<lambda>s. s\<lparr>num_tgens_used := x\<rparr>) (tune_stopnote cfg t st)"
  by (simp add: tune_stopnote_def Let_def split: sum.splits)

lemma tune_stopscore_loop_num_tgens:
  "tune_stopscore_loop cfg ks (st\<lparr>num_tgens_used := x\<rparr>)
     = map_sum id (\<lambda>s. s\<lparr>num_tgens_used := x\<rparr>) (tune_stopscore_loop cfg ks st)"
proof (induction ks arbitrary: st)
  case Nil
  show ?case by simp
next
  case (Cons k ks)
  show ?case
    by (cases "tune_stopnote cfg (of_nat k) st") (simp_all add: tune_stopnote_num_tgens Cons.IH)
qed

lemma stop_num_tgens:
  "stop cfg (st\<lparr>num_tgens_used := x\<rparr>)
     = map_sum id (\<lambda>s. s\<lparr>num_tgens_used := x\<rparr>) (stop cfg st)"
  by (cases "tune_stopscore_loop cfg [0..<MAX_TGENS] st")
     (simp_all add: stop_def tune_stopscore_def tune_stopscore_loop_num_tgens)

lemma tune_playscore_init_num_tgens:
  "tune_playscore_init cfg mem score (st\<lparr>num_tgens_used := x\<rparr>)
     = tune_playscore_init cfg mem score st"
proof (cases "tune_playing st")
  case True
  then show ?thesis
    by (cases "stop cfg st") (simp_all add: tune_playscore_init_def stop_num_tgens Let_def)
next
  case False
  then show ?thesis
    by (simp add: tune_playscore_init_def Let_def)
qed

text \<open>
  Claim C10. For every score pointer and every count \<open>n\<close>, \<open>play(score, n)\<close> has the
  outcome of \<open>play(score)\<close>, the same state or the same fault or neither returns:
  \<open>tune_playscore\<close> overwrites \<open>num_tgens_used\<close> before anything reads it.
\<close>

theorem play_ignores_generator_count:
  "play_n cfg mem score n st = play cfg mem score st"
  by (simp add: play_def play_n_def tune_playscore_def tune_playscore_init_num_tgens)

section \<open>The restart command\<close>

lemma restart_not_wait:
  fixes cmd :: byte
  assumes "cmd AND 0xf0 = CMD_RESTART"
  shows "\<not> cmd < 0x80"
proof -
  have "cmd AND 0xf0 \<le> cmd" by (rule word_and_le2)
  with assms have "0xe0 \<le> cmd" by (simp add: CMD_RESTART_def)
  then show ?thesis by (simp add: word_le_nat_alt word_less_nat_alt)
qed

lemma restart_body:
  assumes "mem (score_cursor st) AND 0xf0 = CMD_RESTART"
  shows "tune_stepscore_body cfg mem st = Inr (Continue (st\<lparr>score_cursor := score_start st\<rparr>))"
  using assms restart_not_wait [OF assms]
  by (simp add: tune_stepscore_body_def Let_def cmd_defs)

lemma init_score_start:
  assumes "tune_playscore_init cfg mem score st0 = Inr st1"
  shows "score_start st1 =
      (if mem score = 0x50 \<and> mem (score + 1) = 0x74 then score + unat (mem (score + 2)) else score)"
  using assms
  by (auto simp: tune_playscore_init_def Let_def read_header_def split: sum.splits if_splits)

text \<open>
  Claim C7. A command byte with the opcode \<open>0xE0\<close> makes one turn of the loop of
  \<open>tune_stepscore\<close> that sets the cursor to \<open>score_start\<close> and changes no other member
  of the state, no generator among them, and the decoding goes on from there.
  \<open>score_start\<close> is what \<open>tune_playscore\<close> made it, the address after the header, or
  the start of the score when there is no header, and no command changes it.
\<close>

theorem restart_resets_cursor_only:
  "(mem (score_cursor st) AND 0xf0 = CMD_RESTART \<longrightarrow>
      tune_stepscore_body cfg mem st = Inr (Continue (st\<lparr>score_cursor := score_start st\<rparr>)) \<and>
      tune_stepscore cfg mem st = tune_stepscore cfg mem (st\<lparr>score_cursor := score_start st\<rparr>))
   \<and> (tune_playscore_init cfg mem score st0 = Inr st1 \<longrightarrow>
      score_start st1 =
        (if mem score = 0x50 \<and> mem (score + 1) = 0x74 then score + unat (mem (score + 2)) else score))
   \<and> (tune_stepscore_body cfg mem st = Inr r \<longrightarrow> score_start (loop_state r) = score_start st)"
proof (intro conjI impI)
  assume a: "mem (score_cursor st) AND 0xf0 = CMD_RESTART"
  show b: "tune_stepscore_body cfg mem st = Inr (Continue (st\<lparr>score_cursor := score_start st\<rparr>))"
    using a by (rule restart_body [where mem = mem and st = st])
  show "tune_stepscore cfg mem st = tune_stepscore cfg mem (st\<lparr>score_cursor := score_start st\<rparr>)"
    by (subst tune_stepscore.simps) (simp add: b)
next
  assume "tune_playscore_init cfg mem score st0 = Inr st1"
  then show "score_start st1 =
        (if mem score = 0x50 \<and> mem (score + 1) = 0x74 then score + unat (mem (score + 2)) else score)"
    by (rule init_score_start)
next
  assume "tune_stepscore_body cfg mem st = Inr r"
  from body_same_setup [OF this] show "score_start (loop_state r) = score_start st"
    by (simp add: same_setup_def)
qed


theorem restart_resets_cursor_only_witness:
  "flash restart_score (score_cursor (initial_state\<lparr>score_start := 6, score_cursor := 10\<rparr>)) AND 0xf0
     = CMD_RESTART \<and>
   tune_stepscore_body test_config (flash restart_score)
       (initial_state\<lparr>score_start := 6, score_cursor := 10\<rparr>)
     = Inr (Continue (initial_state\<lparr>score_start := 6, score_cursor := 6\<rparr>)) \<and>
   tune_playscore_init test_config (flash restart_score) 0 initial_state
     = Inr (projr (tune_playscore_init test_config (flash restart_score) 0 initial_state)) \<and>
   score_start (projr (tune_playscore_init test_config (flash restart_score) 0 initial_state)) = 6 \<and>
   score_start (loop_state (Continue (initial_state\<lparr>score_start := 6, score_cursor := 6\<rparr>))) = 6"
proof -
  have h1: "flash restart_score (score_cursor (initial_state\<lparr>score_start := 6, score_cursor := 10\<rparr>))
      AND 0xf0 = CMD_RESTART"
    by (simp add: flash_nth restart_score_def CMD_RESTART_def)
  have h2: "tune_playscore_init test_config (flash restart_score) 0 initial_state
     = Inr (projr (tune_playscore_init test_config (flash restart_score) 0 initial_state))"
    by (simp add: tune_playscore_init_def initial_state_def Let_def)
  have m: "flash restart_score 0 = 0x50" "flash restart_score (0 + 1) = 0x74"
    "flash restart_score (0 + 2) = 6"
    by (simp_all add: flash_nth restart_score_def)
  note t = restart_resets_cursor_only [where mem = "flash restart_score" and cfg = test_config
      and st = "initial_state\<lparr>score_start := 6, score_cursor := 10\<rparr>" and score = 0
      and ?st0.0 = initial_state
      and ?st1.0 = "projr (tune_playscore_init test_config (flash restart_score) 0 initial_state)"
      and r = "Continue (initial_state\<lparr>score_start := 6, score_cursor := 6\<rparr>)"]
  from t h1 have b: "tune_stepscore_body test_config (flash restart_score)
       (initial_state\<lparr>score_start := 6, score_cursor := 10\<rparr>)
     = Inr (Continue (initial_state\<lparr>score_start := 6, score_cursor := 6\<rparr>))"
    by simp
  from t h2 m have s: "score_start (projr (tune_playscore_init test_config (flash restart_score) 0 initial_state)) = 6"
    by simp
  from t b have l: "score_start (loop_state (Continue (initial_state\<lparr>score_start := 6, score_cursor := 6\<rparr>))) = 6"
    by simp
  from h1 b h2 s l show ?thesis by simp
qed

section \<open>The file header\<close>

lemma clamp_count:
  fixes n :: byte
  shows "1 \<le> max 1 (min 16 n)" and "max 1 (min 16 n) \<le> 16"
  by (simp_all add: max_def min_def word_le_nat_alt)

lemma playnote_not_wait:
  fixes cmd :: byte
  assumes "cmd AND 0xf0 = CMD_PLAYNOTE"
  shows "\<not> cmd < 0x80"
proof -
  have "cmd AND 0xf0 \<le> cmd" by (rule word_and_le2)
  with assms have "0x90 \<le> cmd" by (simp add: CMD_PLAYNOTE_def)
  then show ?thesis by (simp add: word_le_nat_alt word_less_nat_alt)
qed

lemma playnote_body:
  assumes "mem (score_cursor s) AND 0xf0 = CMD_PLAYNOTE" and "volume_present s"
  shows "tune_stepscore_body cfg mem s =
     (case tune_playnote cfg (mem (score_cursor s) AND 0x0f) (mem (score_cursor s + 1))
              (mem (score_cursor s + 2)) (s\<lparr>score_cursor := score_cursor s + 3\<rparr>) of
        Inl e \<Rightarrow> Inl e | Inr s' \<Rightarrow> Inr (Continue s'))"
proof -
  have 3: "score_cursor s + 3 = Suc (Suc (Suc (score_cursor s)))"
    by simp
  show ?thesis
    using assms playnote_not_wait [OF assms(1)]
    by (simp add: tune_stepscore_body_def Let_def cmd_defs 3)
qed

lemma header_score_runs:
  "\<exists>st2. tune_playscore test_config (flash header_score) 0 initial_state = Some (Inr st2) \<and>
     score_cursor st2 = 11 \<and> volume_frac (tone_gen st2 0) = 51712 \<and> scorewait_samples st2 = 4411
     \<and> playing (tone_gen st2 0)"
  apply (simp add: tune_playscore_def tune_playscore_init_def read_header_def Let_def initial_state_def
      flash_nth header_score_def MAX_TGENS_def ASSUME_VOLUME_def HDR_F1_VOLUME_PRESENT_def mixer_amplitude_fractions_def)
  apply (subst tune_stepscore.simps)
  apply (simp add: eval_defs flash_nth header_score_def)
  apply (subst tune_stepscore.simps)
  apply (simp add: eval_defs flash_nth header_score_def)
  done


text \<open>
  Claim C3. When \<open>tune_playscore\<close> reaches the decoding of the score: if the first two
  bytes are \<open>'P'\<close> and \<open>'t'\<close>, the velocity flag is bit \<open>0x80\<close> of the fourth byte, the
  generator count is the sixth byte clamped into 1..16, and the cursor is the start plus
  the third byte, the header length; otherwise there are no velocities, the count is 16
  and the cursor is the start of the score. The amplitude fraction is the mixer entry of
  that count. The commands decoded afterwards keep all this, and a note-on command decoded
  while the velocity flag is set takes its velocity from the byte after the note number.
\<close>

theorem header_configures_playback:
  assumes "tune_playscore_init cfg mem score st = Inr st1"
  shows "(mem score = 0x50 \<and> mem (score + 1) = 0x74 \<longrightarrow>
            volume_present st1 = (mem (score + 3) AND 0x80 \<noteq> 0) \<and>
            num_tgens_used st1 = max 1 (min 16 (mem (score + 5))) \<and>
            1 \<le> num_tgens_used st1 \<and> num_tgens_used st1 \<le> 16 \<and>
            score_cursor st1 = score + unat (mem (score + 2)))
       \<and> (\<not> (mem score = 0x50 \<and> mem (score + 1) = 0x74) \<longrightarrow>
            \<not> volume_present st1 \<and> num_tgens_used st1 = 16 \<and> score_cursor st1 = score)
       \<and> amplitude_fraction st1 = mixer_amplitude_fractions ! unat (num_tgens_used st1)
       \<and> score_start st1 = score_cursor st1
       \<and> tune_playscore cfg mem score st =
            map_option (map_sum id (\<lambda>s. s\<lparr>tune_playing := True\<rparr>)) (tune_stepscore cfg mem st1)
       \<and> (\<forall>st2. tune_playscore cfg mem score st = Some (Inr st2) \<longrightarrow>
            volume_present st2 = volume_present st1 \<and> num_tgens_used st2 = num_tgens_used st1 \<and>
            amplitude_fraction st2 = amplitude_fraction st1 \<and> score_start st2 = score_start st1)
       \<and> (\<forall>s. volume_present s \<and> mem (score_cursor s) AND 0xf0 = CMD_PLAYNOTE \<longrightarrow>
            tune_stepscore_body cfg mem s =
              (case tune_playnote cfg (mem (score_cursor s) AND 0x0f) (mem (score_cursor s + 1))
                      (mem (score_cursor s + 2)) (s\<lparr>score_cursor := score_cursor s + 3\<rparr>) of
                 Inl e \<Rightarrow> Inl e | Inr s' \<Rightarrow> Inr (Continue s')))"
proof -
  have hdr: "mem score = 0x50 \<and> mem (score + 1) = 0x74 \<longrightarrow>
            volume_present st1 = (mem (score + 3) AND 0x80 \<noteq> 0) \<and>
            num_tgens_used st1 = max 1 (min 16 (mem (score + 5))) \<and>
            score_cursor st1 = score + unat (mem (score + 2))"
    using assms
    by (auto simp: tune_playscore_init_def Let_def read_header_def HDR_F1_VOLUME_PRESENT_def
        MAX_TGENS_def split: sum.splits if_splits)
  have nohdr: "\<not> (mem score = 0x50 \<and> mem (score + 1) = 0x74) \<longrightarrow>
            \<not> volume_present st1 \<and> num_tgens_used st1 = 16 \<and> score_cursor st1 = score"
    using assms
    by (auto simp: tune_playscore_init_def Let_def read_header_def ASSUME_VOLUME_def
        MAX_TGENS_def split: sum.splits if_splits)
  have amp: "amplitude_fraction st1 = mixer_amplitude_fractions ! unat (num_tgens_used st1)"
    and start: "score_start st1 = score_cursor st1"
    using assms
    by (auto simp: tune_playscore_init_def Let_def split: sum.splits if_splits)
  have run: "tune_playscore cfg mem score st =
            map_option (map_sum id (\<lambda>s. s\<lparr>tune_playing := True\<rparr>)) (tune_stepscore cfg mem st1)"
    using assms by (simp add: tune_playscore_def split: option.splits sum.splits)
  have keep: "volume_present st2 = volume_present st1 \<and> num_tgens_used st2 = num_tgens_used st1 \<and>
            amplitude_fraction st2 = amplitude_fraction st1 \<and> score_start st2 = score_start st1"
    if "tune_playscore cfg mem score st = Some (Inr st2)" for st2
  proof -
    from that run obtain y where y: "tune_stepscore cfg mem st1 = Some y"
      "map_sum id (\<lambda>s. s\<lparr>tune_playing := True\<rparr>) y = Inr st2"
      by auto
    then obtain st3 where 3: "tune_stepscore cfg mem st1 = Some (Inr st3)"
      and 2: "st2 = st3\<lparr>tune_playing := True\<rparr>"
      by (cases y) auto
    from stepscore_same_setup [OF 3 refl] 2 show ?thesis
      by (simp add: same_setup_def)
  qed
  from hdr nohdr amp start run keep clamp_count playnote_body show ?thesis
    by (simp del: min.absorb1 min.absorb2 min.absorb3 min.absorb4 max.absorb1 max.absorb2 max.absorb3 max.absorb4)
qed


theorem header_configures_playback_witness:
  "tune_playscore_init test_config (flash header_score) 0 initial_state
     = Inr (projr (tune_playscore_init test_config (flash header_score) 0 initial_state)) \<and>
   num_tgens_used (projr (tune_playscore_init test_config (flash header_score) 0 initial_state)) = 4 \<and>
   volume_present (projr (tune_playscore_init test_config (flash header_score) 0 initial_state)) \<and>
   score_cursor (projr (tune_playscore_init test_config (flash header_score) 0 initial_state)) = 6 \<and>
   amplitude_fraction (projr (tune_playscore_init test_config (flash header_score) 0 initial_state)) = 26214 \<and>
   num_tgens_used (projr (the (tune_playscore test_config (flash header_score) 0 initial_state))) = 4 \<and>
   volume_present (projr (the (tune_playscore test_config (flash header_score) 0 initial_state))) \<and>
   volume_frac (tone_gen (projr (the (tune_playscore test_config (flash header_score) 0 initial_state))) 0) = 51712"
proof -
  have h: "tune_playscore_init test_config (flash header_score) 0 initial_state
     = Inr (projr (tune_playscore_init test_config (flash header_score) 0 initial_state))"
    by (simp add: tune_playscore_init_def initial_state_def Let_def)
  have m: "flash header_score 0 = 0x50" "flash header_score (0 + 1) = 0x74"
    "flash header_score (0 + 2) = 6" "flash header_score (0 + 3) = 0x80"
    "flash header_score (0 + 5) = 4"
    by (simp_all add: flash_nth header_score_def)
  note t = header_configures_playback [OF h]
  from header_score_runs obtain st2
    where r: "tune_playscore test_config (flash header_score) 0 initial_state = Some (Inr st2)"
      and v: "volume_frac (tone_gen st2 0) = 51712"
    by blast
  from t m have 1: "num_tgens_used (projr (tune_playscore_init test_config (flash header_score) 0 initial_state)) = 4"
    "volume_present (projr (tune_playscore_init test_config (flash header_score) 0 initial_state))"
    "score_cursor (projr (tune_playscore_init test_config (flash header_score) 0 initial_state)) = 6"
    by simp_all
  from t 1 have 2: "amplitude_fraction (projr (tune_playscore_init test_config (flash header_score) 0 initial_state)) = 26214"
    by (simp add: mixer_amplitude_fractions_def)
  from t r 1 have 3: "num_tgens_used st2 = 4" "volume_present st2"
    by simp_all
  from h 1 2 3 r v show ?thesis by simp
qed

section \<open>Stopping the score\<close>












section \<open>The release of a note\<close>

subsection \<open>Samples during which no command of the score is decoded\<close>

lemma tgen_loop_generator:
  assumes "tgen_loop cfg amp ks tgs level = Inr (tgs', level')" and "distinct ks"
  shows "(i \<in> set ks \<and> playing (tgs i) \<longrightarrow> (\<exists>l. tgen_sample cfg amp (tgs i) = Inr (tgs' i, l))) \<and>
         (i \<notin> set ks \<or> \<not> playing (tgs i) \<longrightarrow> tgs' i = tgs i)"
  using assms
proof (induction ks arbitrary: tgs level)
  case Nil
  then show ?case by simp
next
  case (Cons k ks)
  from Cons.prems(1) have kb: "\<not> MAX_TGENS \<le> k"
    by (auto split: if_splits)
  from Cons.prems(2) have d: "distinct ks" and nk: "k \<notin> set ks" by simp_all
  show ?case
  proof (cases "playing (tgs k)")
    case False
    with Cons.prems(1) kb have "tgen_loop cfg amp ks tgs level = Inr (tgs', level')"
      by simp
    from Cons.IH [OF this d] nk False show ?thesis
      by auto
  next
    case True
    with Cons.prems(1) kb obtain tg' l where s: "tgen_sample cfg amp (tgs k) = Inr (tg', l)"
      and r: "tgen_loop cfg amp ks (tgs(k := tg')) (level + l) = Inr (tgs', level')"
      by (auto split: sum.splits)
    from Cons.IH [OF r d] have ih:
      "(i \<in> set ks \<and> playing ((tgs(k := tg')) i) \<longrightarrow>
          (\<exists>l. tgen_sample cfg amp ((tgs(k := tg')) i) = Inr (tgs' i, l))) \<and>
       (i \<notin> set ks \<or> \<not> playing ((tgs(k := tg')) i) \<longrightarrow> tgs' i = (tgs(k := tg')) i)" .
    show ?thesis
    proof (cases "i = k")
      case True
      with ih nk have "tgs' i = tg'" by simp
      with True s \<open>playing (tgs k)\<close> show ?thesis by auto
    next
      case False
      with ih show ?thesis by auto
    qed
  qed
qed

lemma update_sample_quiet:
  assumes "quiet (Suc n) st" and "update_sample cfg mem st = Some (Inr (st1, x))"
  shows "quiet n st1 \<and> num_tgens_used st1 = num_tgens_used st \<and>
     amplitude_fraction st1 = amplitude_fraction st \<and>
     (\<exists>level. tgen_loop cfg (amplitude_fraction st) [0..<unat (num_tgens_used st)] (tone_gen st) 0
        = Inr (tone_gen st1, level))"
proof (cases "tune_playing st \<and> scorewait_samples st \<noteq> 0")
  case False
  with assms show ?thesis
    by (auto simp: update_sample_def quiet_def split: sum.splits)
next
  case True
  with assms(1) have w: "Suc n < unat (scorewait_samples st)"
    by (simp add: quiet_def)
  then have nz: "scorewait_samples st \<noteq> 0" by auto
  have u: "unat (scorewait_samples st - 1) = unat (scorewait_samples st) - 1"
    using nz by (rule unat_minus_one)
  with w have w1: "n < unat (scorewait_samples st - 1)" by simp
  then have nz1: "scorewait_samples st - 1 \<noteq> 0" by auto
  from assms(2) True nz1 w1 show ?thesis
    by (auto simp: update_sample_def quiet_def Let_def split: sum.splits)
qed

lemma quiet_less: "quiet (Suc n) st \<Longrightarrow> quiet n st"
  by (auto simp: quiet_def)

lemma update_sample_quiet_returns:
  assumes "quiet (Suc n) st"
  shows "update_sample cfg mem st \<noteq> None"
proof (cases "tune_playing st \<and> scorewait_samples st \<noteq> 0")
  case False
  then show ?thesis
    by (auto simp: update_sample_def split: sum.splits)
next
  case True
  with assms have w: "Suc n < unat (scorewait_samples st)"
    by (simp add: quiet_def)
  then have nz: "scorewait_samples st \<noteq> 0" by auto
  have u: "unat (scorewait_samples st - 1) = unat (scorewait_samples st) - 1"
    using nz by (rule unat_minus_one)
  with w have w1: "n < unat (scorewait_samples st - 1)" by simp
  then have nz1: "scorewait_samples st - 1 \<noteq> 0" by auto
  from True nz1 show ?thesis
    by (auto simp: update_sample_def Let_def split: sum.splits)
qed

lemma update_block_quiet_returns:
  "quiet n st \<Longrightarrow> update_block cfg mem n st \<noteq> None"
proof (induction n arbitrary: st)
  case 0
  show ?case by simp
next
  case (Suc n)
  from update_sample_quiet_returns [OF Suc.prems]
  have r: "update_sample cfg mem st \<noteq> None" .
  show ?case
  proof (cases "update_sample cfg mem st")
    case None
    with r show ?thesis by simp
  next
    case (Some y)
    show ?thesis
    proof (cases y)
      case (Inl e)
      with Some show ?thesis by simp
    next
      case (Inr p)
      obtain st1 x where p: "p = (st1, x)" by (cases p)
      from update_sample_quiet [OF Suc.prems] Some Inr p have "quiet n st1" by simp
      from Suc.IH [OF this] Some Inr p show ?thesis
        by (auto split: option.splits sum.splits)
    qed
  qed
qed

lemma update_block_Suc:
  assumes "update_block cfg mem (Suc n) st = Some (Inr (st', xs))"
  shows "\<exists>st1 x ys. update_sample cfg mem st = Some (Inr (st1, x)) \<and>
     update_block cfg mem n st1 = Some (Inr (st', ys)) \<and> xs = x # ys"
  using assms by (auto split: option.splits sum.splits)

lemma update_block_snoc:
  assumes "update_block cfg mem (Suc n) st = Some (Inr (st', xs))"
  shows "\<exists>st1 ys x. update_block cfg mem n st = Some (Inr (st1, ys)) \<and>
     update_sample cfg mem st1 = Some (Inr (st', x))"
  using assms
proof (induction n arbitrary: st xs)
  case 0
  then show ?case by (auto split: option.splits sum.splits)
next
  case (Suc n)
  from update_block_Suc [OF Suc.prems] obtain st1 x ys
    where 1: "update_sample cfg mem st = Some (Inr (st1, x))"
      and 2: "update_block cfg mem (Suc n) st1 = Some (Inr (st', ys))"
    by blast
  from Suc.IH [OF 2] obtain st2 zs y
    where 3: "update_block cfg mem n st1 = Some (Inr (st2, zs))"
      and 4: "update_sample cfg mem st2 = Some (Inr (st', y))"
    by blast
  from 1 3 have "update_block cfg mem (Suc n) st = Some (Inr (st2, x # zs))"
    by simp
  with 4 show ?case by blast
qed

subsection \<open>A released generator in these samples\<close>

lemma update_sample_quiet_eq:
  assumes "quiet (Suc n) st"
  shows "\<exists>st2. tone_gen st2 = tone_gen st \<and> num_tgens_used st2 = num_tgens_used st \<and>
     amplitude_fraction st2 = amplitude_fraction st \<and> quiet n st2 \<and>
     update_sample cfg mem st
       = (case tgen_loop cfg (amplitude_fraction st) [0..<unat (num_tgens_used st)] (tone_gen st) 0 of
            Inl e \<Rightarrow> Some (Inl e)
          | Inr (tgs, level) \<Rightarrow> Some (Inr (st2\<lparr>tone_gen := tgs\<rparr>, ucast level)))"
proof (cases "tune_playing st \<and> scorewait_samples st \<noteq> 0")
  case False
  with assms have "quiet n st" by (auto simp: quiet_def)
  with False show ?thesis
    by (intro exI [of _ st]) (auto simp: update_sample_def)
next
  case True
  with assms have w: "Suc n < unat (scorewait_samples st)"
    by (simp add: quiet_def)
  then have nz: "scorewait_samples st \<noteq> 0" by auto
  have u: "unat (scorewait_samples st - 1) = unat (scorewait_samples st) - 1"
    using nz by (rule unat_minus_one)
  with w have w1: "n < unat (scorewait_samples st - 1)" by simp
  then have nz1: "scorewait_samples st - 1 \<noteq> 0" by auto
  from True nz1 w1 show ?thesis
    by (intro exI [of _ "st\<lparr>scorewait_samples := scorewait_samples st - 1\<rparr>"])
       (simp add: update_sample_def quiet_def Let_def)
qed

lemma release_sample:
  assumes "update_sample cfg mem st = Some (Inr (st1, x))" and "quiet (Suc n) st"
    and "i < unat (num_tgens_used st)"
    and "playing (tone_gen st i)" and "\<not> percussion (tone_gen st i)"
    and "env_state (tone_gen st i) = ENV_RELEASE"
    and "length (waveform_array (tone_gen st i)) = 256"
    and "0 \<le> sint (tone_phase (tone_gen st i))"
  shows "(env_count (tone_gen st i) \<noteq> 0 \<longrightarrow>
           tone_gen st1 i = (tone_gen st i)\<lparr>env_count := env_count (tone_gen st i) - 1,
              tone_phase := (tone_phase (tone_gen st i) + tone_incr (tone_gen st i)) AND 0x7fffffff,
              env_mult := env_mult (tone_gen st i) + env_incr (tone_gen st i)\<rparr>) \<and>
         (env_count (tone_gen st i) = 0 \<longrightarrow>
           \<not> playing (tone_gen st1 i) \<and> env_state (tone_gen st1 i) = ENV_IDLE)"
proof -
  let ?tg = "tone_gen st i"
  from update_sample_quiet [OF assms(2,1)] obtain level
    where l: "tgen_loop cfg (amplitude_fraction st) [0..<unat (num_tgens_used st)] (tone_gen st) 0
        = Inr (tone_gen st1, level)"
    by blast
  from tgen_loop_generator [OF l, of i] assms(3,4)
  obtain l1 where s: "tgen_sample cfg (amplitude_fraction st) ?tg = Inr (tone_gen st1 i, l1)"
    by auto
  show ?thesis
  proof (intro conjI impI)
    assume nz: "env_count ?tg \<noteq> 0"
    from melodic_sample_reads [OF assms(5) env_loop_nonzero [OF nz, of cfg] refl assms(7,8),
        where amp = "amplitude_fraction st"] s
    show "tone_gen st1 i = ?tg\<lparr>env_count := env_count ?tg - 1,
              tone_phase := (tone_phase ?tg + tone_incr ?tg) AND 0x7fffffff,
              env_mult := env_mult ?tg + env_incr ?tg\<rparr>"
      by auto
  next
    assume z: "env_count ?tg = 0"
    let ?tg1 = "?tg\<lparr>env_state := ENV_IDLE, playing := False, env_count := INT_MAX\<rparr>"
    have e: "env_loop cfg ?tg = Inr ?tg1"
      using assms(6) z by (intro env_loop_release)
    from melodic_sample_reads [OF assms(5) e _ assms(7,8), where amp = "amplitude_fraction st"] s
    have "tone_gen st1 i = ?tg1\<lparr>env_count := env_count ?tg1 - 1,
                tone_phase := (tone_phase ?tg1 + tone_incr ?tg1) AND 0x7fffffff,
                env_mult := env_mult ?tg1 + env_incr ?tg1\<rparr>"
      by auto
    then show "\<not> playing (tone_gen st1 i)" and "env_state (tone_gen st1 i) = ENV_IDLE"
      by simp_all
  qed
qed

lemma release_block_run:
  assumes "update_block cfg mem k st = Some (Inr (st', xs))" and "quiet (k + m) st"
    and "i < unat (num_tgens_used st)" and "k \<le> unat (env_count (tone_gen st i))"
    and "playing (tone_gen st i)" and "\<not> percussion (tone_gen st i)"
    and "env_state (tone_gen st i) = ENV_RELEASE"
    and "length (waveform_array (tone_gen st i)) = 256"
    and "0 \<le> sint (tone_phase (tone_gen st i))"
  shows "playing (tone_gen st' i) \<and> \<not> percussion (tone_gen st' i) \<and>
     env_state (tone_gen st' i) = ENV_RELEASE \<and>
     env_count (tone_gen st' i) = env_count (tone_gen st i) - of_nat k \<and>
     env_mult (tone_gen st' i) = env_mult (tone_gen st i) + of_nat k * env_incr (tone_gen st i) \<and>
     env_incr (tone_gen st' i) = env_incr (tone_gen st i) \<and>
     length (waveform_array (tone_gen st' i)) = 256 \<and> 0 \<le> sint (tone_phase (tone_gen st' i)) \<and>
     num_tgens_used st' = num_tgens_used st \<and> quiet m st'"
  using assms
proof (induction k arbitrary: st xs)
  case 0
  then show ?case by simp
next
  case (Suc k)
  let ?tg = "tone_gen st i"
  from update_block_Suc [OF Suc.prems(1)] obtain st1 x ys
    where 1: "update_sample cfg mem st = Some (Inr (st1, x))"
      and 2: "update_block cfg mem k st1 = Some (Inr (st', ys))"
    by blast
  from Suc.prems(2) have q: "quiet (Suc (k + m)) st" by simp
  from update_sample_quiet [OF q 1] have q1: "quiet (k + m) st1"
    and n1: "num_tgens_used st1 = num_tgens_used st" by simp_all
  from Suc.prems(4) have nz: "env_count ?tg \<noteq> 0"
    by (auto simp: unat_eq_zero [symmetric] simp del: unat_eq_zero)
  let ?tg1 = "?tg\<lparr>env_count := env_count ?tg - 1,
                tone_phase := (tone_phase ?tg + tone_incr ?tg) AND 0x7fffffff,
                env_mult := env_mult ?tg + env_incr ?tg\<rparr>"
  from release_sample [OF 1 q Suc.prems(3,5,6,7,8,9)] nz
  have t1: "tone_gen st1 i = ?tg1" by simp
  have u: "unat (env_count ?tg - 1) = unat (env_count ?tg) - 1"
    using nz by (rule unat_minus_one)
  with Suc.prems(4) have k: "k \<le> unat (env_count (tone_gen st1 i))" by (simp add: t1)
  have i1: "i < unat (num_tgens_used st1)" using Suc.prems(3) n1 by simp
  have p: "playing (tone_gen st1 i)" "\<not> percussion (tone_gen st1 i)"
    "env_state (tone_gen st1 i) = ENV_RELEASE" "length (waveform_array (tone_gen st1 i)) = 256"
    using Suc.prems(5,6,7,8) by (simp_all add: t1)
  have ph: "0 \<le> sint (tone_phase (tone_gen st1 i))"
    using phase_mask_nonneg by (simp add: t1)
  from Suc.IH [OF 2 q1 i1 k p ph]
  have r: "playing (tone_gen st' i)" "\<not> percussion (tone_gen st' i)"
     "env_state (tone_gen st' i) = ENV_RELEASE"
     "env_count (tone_gen st' i) = env_count ?tg1 - of_nat k"
     "env_mult (tone_gen st' i) = env_mult ?tg1 + of_nat k * env_incr ?tg1"
     "env_incr (tone_gen st' i) = env_incr ?tg1"
     "length (waveform_array (tone_gen st' i)) = 256" "0 \<le> sint (tone_phase (tone_gen st' i))"
     "num_tgens_used st' = num_tgens_used st1" "quiet m st'"
    by (simp_all add: t1)
  have "env_count (tone_gen st' i) = env_count ?tg - of_nat (Suc k)"
    using r(4) by simp
  moreover have "env_mult (tone_gen st' i) = env_mult ?tg + of_nat (Suc k) * env_incr ?tg"
    using r(5) by (simp add: algebra_simps)
  ultimately show ?case using r n1 by simp
qed

lemma update_block_unused:
  assumes "update_block cfg mem k st = Some (Inr (st', xs))" and "quiet k st"
    and "unat (num_tgens_used st) \<le> i"
  shows "tone_gen st' i = tone_gen st i"
  using assms
proof (induction k arbitrary: st xs)
  case 0
  then show ?case by simp
next
  case (Suc k)
  from update_block_Suc [OF Suc.prems(1)] obtain st1 x ys
    where 1: "update_sample cfg mem st = Some (Inr (st1, x))"
      and 2: "update_block cfg mem k st1 = Some (Inr (st', ys))"
    by blast
  from update_sample_quiet [OF Suc.prems(2) 1] obtain level where q1: "quiet k st1"
    and n1: "num_tgens_used st1 = num_tgens_used st"
    and l: "tgen_loop cfg (amplitude_fraction st) [0..<unat (num_tgens_used st)] (tone_gen st) 0
        = Inr (tone_gen st1, level)"
    by blast
  from tgen_loop_generator [OF l, of i] Suc.prems(3) have "tone_gen st1 i = tone_gen st i"
    by simp
  with Suc.IH [OF 2 q1] Suc.prems(3) n1 show ?case by simp
qed

lemma fading_sample:
  assumes "fading tg" and "playing tg"
  shows "\<exists>tg' l. tgen_sample cfg amp tg = Inr (tg', l) \<and> fading tg'"
proof -
  from assms have a: "\<not> percussion tg" "env_state tg = ENV_RELEASE"
    "length (waveform_array tg) = 256" "0 \<le> sint (tone_phase tg)"
    by (simp_all add: fading_def)
  show ?thesis
  proof (cases "env_count tg = 0")
    case True
    let ?tg1 = "tg\<lparr>env_state := ENV_IDLE, playing := False, env_count := INT_MAX\<rparr>"
    have e: "env_loop cfg tg = Inr ?tg1"
      using a(2) True by (intro env_loop_release)
    from melodic_sample_reads [OF a(1) e _ a(3,4), where amp = amp]
    obtain l where "tgen_sample cfg amp tg
       = Inr (?tg1\<lparr>env_count := env_count ?tg1 - 1,
                tone_phase := (tone_phase ?tg1 + tone_incr ?tg1) AND 0x7fffffff,
                env_mult := env_mult ?tg1 + env_incr ?tg1\<rparr>, l)"
      by auto
    then show ?thesis by (simp add: fading_def)
  next
    case False
    from melodic_sample_reads [OF a(1) env_loop_nonzero [OF False, of cfg] refl a(3,4),
        where amp = amp]
    obtain l where "tgen_sample cfg amp tg
       = Inr (tg\<lparr>env_count := env_count tg - 1,
                tone_phase := (tone_phase tg + tone_incr tg) AND 0x7fffffff,
                env_mult := env_mult tg + env_incr tg\<rparr>, l)"
      by auto
    then show ?thesis using a phase_mask_nonneg by (simp add: fading_def)
  qed
qed

lemma fading_loop:
  assumes "\<forall>j\<in>set ks. j < MAX_TGENS \<and> fading (tgs j)"
  shows "\<exists>tgs' l. tgen_loop cfg amp ks tgs level = Inr (tgs', l) \<and>
     (\<forall>j. fading (tgs j) \<longrightarrow> fading (tgs' j))"
  using assms
proof (induction ks arbitrary: tgs level)
  case Nil
  show ?case by simp
next
  case (Cons k ks)
  from Cons.prems have kb: "\<not> MAX_TGENS \<le> k" and fk: "fading (tgs k)"
    and rest: "\<forall>j\<in>set ks. j < MAX_TGENS \<and> fading (tgs j)"
    by auto
  show ?case
  proof (cases "playing (tgs k)")
    case False
    from Cons.IH [OF rest, of level] False kb show ?thesis by simp
  next
    case True
    from fading_sample [OF fk True, of cfg amp] obtain tg' l
      where s: "tgen_sample cfg amp (tgs k) = Inr (tg', l)" and f: "fading tg'"
      by blast
    have "\<forall>j\<in>set ks. j < MAX_TGENS \<and> fading ((tgs(k := tg')) j)"
      using rest f by simp
    from Cons.IH [OF this, of "level + l"] obtain tgs' l'
      where r: "tgen_loop cfg amp ks (tgs(k := tg')) (level + l) = Inr (tgs', l')"
        and g: "\<forall>j. fading ((tgs(k := tg')) j) \<longrightarrow> fading (tgs' j)"
      by blast
    have "\<forall>j. fading (tgs j) \<longrightarrow> fading (tgs' j)"
    proof (intro allI impI)
      fix j
      assume "fading (tgs j)"
      with f have "fading ((tgs(k := tg')) j)" by simp
      with g show "fading (tgs' j)" by blast
    qed
    with True kb s r show ?thesis by simp
  qed
qed

lemma fading_block_returns:
  assumes "quiet k st" and "unat (num_tgens_used st) \<le> MAX_TGENS"
    and "\<forall>j<unat (num_tgens_used st). fading (tone_gen st j)"
  shows "\<exists>st' xs. update_block cfg mem k st = Some (Inr (st', xs))"
  using assms
proof (induction k arbitrary: st)
  case 0
  show ?case by simp
next
  case (Suc k)
  from update_sample_quiet_eq [OF Suc.prems(1), of cfg mem] obtain st2
    where t: "tone_gen st2 = tone_gen st" and n: "num_tgens_used st2 = num_tgens_used st"
      and q: "quiet k st2"
      and u: "update_sample cfg mem st
       = (case tgen_loop cfg (amplitude_fraction st) [0..<unat (num_tgens_used st)] (tone_gen st) 0 of
            Inl e \<Rightarrow> Some (Inl e)
          | Inr (tgs, level) \<Rightarrow> Some (Inr (st2\<lparr>tone_gen := tgs\<rparr>, ucast level)))"
    by blast
  have "\<forall>j\<in>set [0..<unat (num_tgens_used st)]. j < MAX_TGENS \<and> fading (tone_gen st j)"
    using Suc.prems(2,3) by auto
  from fading_loop [OF this, of cfg "amplitude_fraction st" 0] obtain tgs' l
    where r: "tgen_loop cfg (amplitude_fraction st) [0..<unat (num_tgens_used st)] (tone_gen st) 0
        = Inr (tgs', l)"
      and g: "\<forall>j. fading (tone_gen st j) \<longrightarrow> fading (tgs' j)"
    by blast
  let ?st1 = "st2\<lparr>tone_gen := tgs'\<rparr>"
  from u r have 1: "update_sample cfg mem st = Some (Inr (?st1, ucast l))" by simp
  have q1: "quiet k ?st1" using q by (simp add: quiet_def)
  have n1: "unat (num_tgens_used ?st1) \<le> MAX_TGENS" using n Suc.prems(2) by simp
  have f1: "\<forall>j<unat (num_tgens_used ?st1). fading (tone_gen ?st1 j)"
    using n g Suc.prems(3) by simp
  from Suc.IH [OF q1 n1 f1] obtain st' xs
    where "update_block cfg mem k ?st1 = Some (Inr (st', xs))"
    by blast
  with 1 show ?case by simp
qed

lemma release_residue:
  fixes S R :: int32
  assumes "0 \<le> sint S" and "0 < sint R"
  shows "sint (S + of_nat (unat R) * word_of_int (sint (- S) sdiv sint R)) = sint S mod sint R"
proof -
  have lt: "sint S < 2 ^ 31" "sint R < 2 ^ 31" using sint_lt [of S] sint_lt [of R] by simp_all
  have "sint (- S) = signed_take_bit (LENGTH(32) - 1) (- sint S)" by (rule sint_word_minus)
  also have "\<dots> = - sint S" using assms lt by (simp add: signed_take_bit_int_eq_self)
  finally have neg: "sint (- S) = - sint S" .
  have d: "sint S sdiv sint R = sint S div sint R"
    using assms by (cases "sint S = 0") (simp_all add: signed_divide_int_def abs_if sgn_if)
  have R: "of_nat (unat R) = R" by simp
  have "S + of_nat (unat R) * word_of_int (sint (- S) sdiv sint R)
      = word_of_int (sint S) + word_of_int (sint R) * word_of_int (- (sint S div sint R))"
    by (simp add: neg d)
  also have "\<dots> = word_of_int (sint S - sint R * (sint S div sint R))"
    by simp
  also have "sint S - sint R * (sint S div sint R) = sint S mod sint R"
    by (simp add: minus_mult_div_eq_mod)
  finally have e: "S + of_nat (unat R) * word_of_int (sint (- S) sdiv sint R)
      = word_of_int (sint S mod sint R)" .
  have m: "0 \<le> sint S mod sint R" "sint S mod sint R < sint R"
    using assms by simp_all
  have "sint (word_of_int (sint S mod sint R) :: int32)
      = signed_take_bit (LENGTH(32) - 1) (sint S mod sint R)"
    by (rule sint_sbintrunc')
  also have "\<dots> = sint S mod sint R"
    using m lt by (simp add: signed_take_bit_int_eq_self)
  finally show ?thesis using e by simp
qed

text \<open>
  Claim C4, as the code has it. For a generator that plays a regular instrument whose
  release count \<open>R\<close> is not zero (with a wave table of 256 samples and a phase that is not
  negative, as \<open>tune_playnote\<close> and \<open>update\<close> leave them), \<open>tune_stopnote\<close> returns and
  puts the envelope into the release state with the multiplier set to the sustain level
  \<open>S\<close> of the instrument, whatever it was before, and the increment \<open>(-S) / R\<close>, the
  division truncating. Then, from any state in which the generator is as \<open>tune_stopnote\<close>
  left it, over \<open>k\<close> samples of \<open>update\<close> during which no command of the
  score is decoded, \<open>update\<close> returns, and when it has rendered the samples: if the
  generator is one that \<open>update\<close> renders, its index being below \<open>num_tgens_used\<close>, then
  for every \<open>k\<close> up to \<open>R\<close> it is still playing after the \<open>k\<close> samples, in the release
  state, and its multiplier is \<open>S\<close> plus \<open>k\<close> times the increment; after \<open>R\<close> samples that
  is \<open>S mod R\<close> when \<open>S\<close> is not negative and \<open>R\<close> is positive; and after \<open>R + 1\<close>
  samples it is off. A generator that \<open>update\<close> does not render stays as \<open>tune_stopnote\<close>
  left it. The samples are rendered, without a fault, when \<open>num_tgens_used\<close> is at most
  \<open>MAX_TGENS\<close> and the other generators that \<open>update\<close> renders are off or in their
  release.
\<close>

theorem note_off_release:
  assumes "unat tgen < MAX_TGENS"
    and "playing (tone_gen st (unat tgen))" and "\<not> percussion (tone_gen st (unat tgen))"
    and "lookup (instrument_waveforms cfg) (unat (instrument_index (tone_gen st (unat tgen)))) = Inr ins"
    and "release ins \<noteq> 0"
    and "length (waveform_array (tone_gen st (unat tgen))) = 256"
    and "0 \<le> sint (tone_phase (tone_gen st (unat tgen)))"
  shows "\<exists>st'. tune_stopnote cfg tgen st = Inr st' \<and>
      (playing (tone_gen st' (unat tgen)) \<and>
       env_state (tone_gen st' (unat tgen)) = ENV_RELEASE \<and>
       env_mult (tone_gen st' (unat tgen)) = sustain_level ins \<and>
       env_count (tone_gen st' (unat tgen)) = release ins \<and>
       env_incr (tone_gen st' (unat tgen))
         = word_of_int (sint (- sustain_level ins) sdiv sint (release ins))) \<and>
      (\<forall>s k. quiet k s \<longrightarrow> update_block cfg mem k s \<noteq> None) \<and>
      (\<forall>s k st'' xs. tone_gen s (unat tgen) = tone_gen st' (unat tgen) \<and> quiet k s \<and>
            update_block cfg mem k s = Some (Inr (st'', xs)) \<longrightarrow>
         (unat tgen < unat (num_tgens_used s) \<and> k \<le> unat (release ins) \<longrightarrow>
            playing (tone_gen st'' (unat tgen)) \<and>
            env_state (tone_gen st'' (unat tgen)) = ENV_RELEASE \<and>
            env_mult (tone_gen st'' (unat tgen)) = sustain_level ins
              + of_nat k * word_of_int (sint (- sustain_level ins) sdiv sint (release ins)) \<and>
            (k = unat (release ins) \<and> 0 \<le> sint (sustain_level ins) \<and> 0 < sint (release ins) \<longrightarrow>
               sint (env_mult (tone_gen st'' (unat tgen)))
                 = sint (sustain_level ins) mod sint (release ins))) \<and>
         (unat tgen < unat (num_tgens_used s) \<and> k = Suc (unat (release ins)) \<longrightarrow>
            \<not> playing (tone_gen st'' (unat tgen))) \<and>
         (unat (num_tgens_used s) \<le> unat tgen \<longrightarrow>
            tone_gen st'' (unat tgen) = tone_gen st' (unat tgen))) \<and>
      (\<forall>s k. tone_gen s (unat tgen) = tone_gen st' (unat tgen) \<and> quiet k s \<and>
            unat (num_tgens_used s) \<le> MAX_TGENS \<and>
            (\<forall>j<unat (num_tgens_used s). j \<noteq> unat tgen \<longrightarrow> fading (tone_gen s j)) \<longrightarrow>
         (\<exists>st'' xs. update_block cfg mem k s = Some (Inr (st'', xs))))"
proof -
  let ?i = "unat tgen"
  let ?tg = "tone_gen st ?i"
  let ?S = "sustain_level ins"
  let ?R = "release ins"
  let ?incr = "word_of_int (sint (- ?S) sdiv sint ?R) :: int32"
  let ?tg' = "?tg\<lparr>env_state := ENV_RELEASE, env_count := ?R, env_mult := ?S, env_incr := ?incr\<rparr>"
  let ?st' = "st\<lparr>tone_gen := (tone_gen st)(?i := ?tg')\<rparr>"
  from assms(4) have ix: "unat (instrument_index ?tg) < length (instrument_waveforms cfg)"
    "instrument_waveforms cfg ! unat (instrument_index ?tg) = ins"
    by (auto simp: lookup_def split: if_splits)
  have rel: "released cfg ?tg = ?tg'"
    using assms(2,3) ix by (simp add: released_def Let_def)
  have "releasable cfg ?tg"
    using assms(5) ix by (simp add: releasable_def)
  from tune_stopnote_released [OF assms(1) this] rel
  have c1: "tune_stopnote cfg tgen st = Inr ?st'"
    by simp
  have tg': "tone_gen ?st' ?i = ?tg'" by simp
  have c2: "playing (tone_gen ?st' ?i) \<and> env_state (tone_gen ?st' ?i) = ENV_RELEASE \<and>
       env_mult (tone_gen ?st' ?i) = ?S \<and> env_count (tone_gen ?st' ?i) = ?R \<and>
       env_incr (tone_gen ?st' ?i) = ?incr"
    using assms(2) by simp
  have c3: "\<forall>s k. quiet k s \<longrightarrow> update_block cfg mem k s \<noteq> None"
    using update_block_quiet_returns by blast
  have p: "playing (tone_gen s ?i)" "\<not> percussion (tone_gen s ?i)"
    "env_state (tone_gen s ?i) = ENV_RELEASE"
    "length (waveform_array (tone_gen s ?i)) = 256"
    "0 \<le> sint (tone_phase (tone_gen s ?i))"
    "env_count (tone_gen s ?i) = ?R" "env_mult (tone_gen s ?i) = ?S"
    "env_incr (tone_gen s ?i) = ?incr"
    if "tone_gen s ?i = tone_gen ?st' ?i" for s
    using that assms(2,3,6,7) by simp_all
  have run: "playing (tone_gen st'' ?i) \<and> env_state (tone_gen st'' ?i) = ENV_RELEASE \<and>
       env_mult (tone_gen st'' ?i) = ?S + of_nat k * ?incr \<and>
       (k = unat ?R \<and> 0 \<le> sint ?S \<and> 0 < sint ?R \<longrightarrow>
          sint (env_mult (tone_gen st'' ?i)) = sint ?S mod sint ?R)"
    if e: "tone_gen s ?i = tone_gen ?st' ?i" and q: "quiet k s"
      and u: "update_block cfg mem k s = Some (Inr (st'', xs))"
      and i: "?i < unat (num_tgens_used s)" and k: "k \<le> unat ?R"
    for s k st'' xs
  proof -
    note ps = p [OF e]
    from q have q0: "quiet (k + 0) s" by simp
    from k ps(6) have k': "k \<le> unat (env_count (tone_gen s ?i))" by simp
    from release_block_run [OF u q0 i k' ps(1-5)] ps(7,8)
    have r: "playing (tone_gen st'' ?i)" "env_state (tone_gen st'' ?i) = ENV_RELEASE"
      "env_mult (tone_gen st'' ?i) = ?S + of_nat k * ?incr"
      by simp_all
    have "sint (env_mult (tone_gen st'' ?i)) = sint ?S mod sint ?R"
      if "k = unat ?R" and "0 \<le> sint ?S" and "0 < sint ?R"
      using r(3) that release_residue [of ?S ?R] by simp
    with r show ?thesis by blast
  qed
  have off: "\<not> playing (tone_gen st'' ?i)"
    if e: "tone_gen s ?i = tone_gen ?st' ?i" and q: "quiet k s"
      and u: "update_block cfg mem k s = Some (Inr (st'', xs))"
      and i: "?i < unat (num_tgens_used s)" and k: "k = Suc (unat ?R)"
    for s k st'' xs
  proof -
    note ps = p [OF e]
    from u k have u': "update_block cfg mem (Suc (unat ?R)) s = Some (Inr (st'', xs))"
      by simp
    from update_block_snoc [OF u'] obtain st1 ys x
      where 1: "update_block cfg mem (unat ?R) s = Some (Inr (st1, ys))"
        and 2: "update_sample cfg mem st1 = Some (Inr (st'', x))"
      by blast
    from q k have q1: "quiet (unat ?R + Suc 0) s" by simp
    have k': "unat ?R \<le> unat (env_count (tone_gen s ?i))" using ps(6) by simp
    from release_block_run [OF 1 q1 i k' ps(1-5)] ps(6)
    have r: "playing (tone_gen st1 ?i)" "\<not> percussion (tone_gen st1 ?i)"
      "env_state (tone_gen st1 ?i) = ENV_RELEASE"
      "env_count (tone_gen st1 ?i) = 0"
      "length (waveform_array (tone_gen st1 ?i)) = 256"
      "0 \<le> sint (tone_phase (tone_gen st1 ?i))"
      "num_tgens_used st1 = num_tgens_used s" "quiet (Suc 0) st1"
      by simp_all
    from i r(7) have i1: "?i < unat (num_tgens_used st1)" by simp
    from release_sample [OF 2 r(8) i1 r(1,2,3,5,6)] r(4) show ?thesis
      by simp
  qed
  have unused: "tone_gen st'' ?i = tone_gen ?st' ?i"
    if e: "tone_gen s ?i = tone_gen ?st' ?i" and "quiet k s"
      and "update_block cfg mem k s = Some (Inr (st'', xs))"
      and "unat (num_tgens_used s) \<le> ?i"
    for s k st'' xs
    using update_block_unused [OF that(3,2,4)] e by simp
  have c4: "\<forall>s k st'' xs. tone_gen s ?i = tone_gen ?st' ?i \<and> quiet k s \<and>
            update_block cfg mem k s = Some (Inr (st'', xs)) \<longrightarrow>
         (?i < unat (num_tgens_used s) \<and> k \<le> unat ?R \<longrightarrow>
            playing (tone_gen st'' ?i) \<and>
            env_state (tone_gen st'' ?i) = ENV_RELEASE \<and>
            env_mult (tone_gen st'' ?i) = ?S + of_nat k * ?incr \<and>
            (k = unat ?R \<and> 0 \<le> sint ?S \<and> 0 < sint ?R \<longrightarrow>
               sint (env_mult (tone_gen st'' ?i)) = sint ?S mod sint ?R)) \<and>
         (?i < unat (num_tgens_used s) \<and> k = Suc (unat ?R) \<longrightarrow>
            \<not> playing (tone_gen st'' ?i)) \<and>
         (unat (num_tgens_used s) \<le> ?i \<longrightarrow> tone_gen st'' ?i = tone_gen ?st' ?i)"
    using run off unused by blast
  have c5: "\<forall>s k. tone_gen s ?i = tone_gen ?st' ?i \<and> quiet k s \<and>
            unat (num_tgens_used s) \<le> MAX_TGENS \<and>
            (\<forall>j<unat (num_tgens_used s). j \<noteq> ?i \<longrightarrow> fading (tone_gen s j)) \<longrightarrow>
         (\<exists>st'' xs. update_block cfg mem k s = Some (Inr (st'', xs)))"
  proof (intro allI impI)
    fix s k
    assume a: "tone_gen s ?i = tone_gen ?st' ?i \<and> quiet k s \<and>
            unat (num_tgens_used s) \<le> MAX_TGENS \<and>
            (\<forall>j<unat (num_tgens_used s). j \<noteq> ?i \<longrightarrow> fading (tone_gen s j))"
    then have e: "tone_gen s ?i = tone_gen ?st' ?i" by blast
    have "fading (tone_gen s ?i)"
      using p(1-5) [OF e] by (simp only: fading_def) simp
    with a have "\<forall>j<unat (num_tgens_used s). fading (tone_gen s j)"
      by blast
    with a show "\<exists>st'' xs. update_block cfg mem k s = Some (Inr (st'', xs))"
      by (intro fading_block_returns) blast+
  qed
  from c1 c2 c3 c4 c5 show ?thesis
    by blast
qed

text \<open>The note of \<open>header_score_state\<close>, stopped: \<open>update\<close> renders the samples that
  follow without a fault.\<close>

lemma piano_lookup:
  "lookup (instrument_waveforms test_config) 13 = Inr (instrument (replicate 256 32767) 0 441 88 1323 2647 39321)"
  by (simp add: lookup_def test_config_def source_instruments_def)

lemma released_note:
  "tune_stopnote test_config 0 header_score_state
     = Inr (header_score_state\<lparr>tone_gen := (tone_gen header_score_state)
         (0 := note_tgen\<lparr>env_state := ENV_RELEASE, env_count := 2647, env_mult := 39321,
                          env_incr := - 14\<rparr>)\<rparr>)"
proof -
  have "releasable test_config (tone_gen header_score_state (unat (0::byte)))"
    by (simp add: releasable_def header_score_state_def note_tgen_def test_config_def
        source_instruments_def instrument_def)
  from tune_stopnote_released [OF _ this] show ?thesis
    by (simp add: MAX_TGENS_def released_def header_score_state_def note_tgen_def test_config_def
        source_instruments_def instrument_def Let_def signed_divide_int_def)
qed

lemma released_note_returns:
  assumes "k < 4411"
  shows "\<exists>st'' xs. update_block test_config (flash header_score) k
     (projr (tune_stopnote test_config 0 header_score_state)) = Some (Inr (st'', xs))"
proof -
  let ?s = "header_score_state\<lparr>tone_gen := (tone_gen header_score_state)
         (0 := note_tgen\<lparr>env_state := ENV_RELEASE, env_count := 2647, env_mult := 39321,
                          env_incr := - 14\<rparr>)\<rparr>"
  have q: "quiet k ?s"
    using assms by (simp add: quiet_def header_score_state_def)
  have n: "unat (num_tgens_used ?s) \<le> MAX_TGENS"
    by (simp add: header_score_state_def MAX_TGENS_def)
  have f: "\<forall>j<unat (num_tgens_used ?s). fading (tone_gen ?s j)"
    by (simp add: header_score_state_def fading_def note_tgen_def silent_tgen_def)
  from fading_block_returns [OF q n f] show ?thesis
    by (simp add: released_note)
qed

theorem note_off_release_witness:
  "unat (0::byte) < MAX_TGENS \<and>
   playing (tone_gen header_score_state (unat (0::byte))) \<and>
   \<not> percussion (tone_gen header_score_state (unat (0::byte))) \<and>
   lookup (instrument_waveforms test_config)
       (unat (instrument_index (tone_gen header_score_state (unat (0::byte)))))
     = Inr (instrument (replicate 256 32767) 0 441 88 1323 2647 39321) \<and>
   release (instrument (replicate 256 32767) 0 441 88 1323 2647 39321) \<noteq> 0 \<and>
   length (waveform_array (tone_gen header_score_state (unat (0::byte)))) = 256 \<and>
   0 \<le> sint (tone_phase (tone_gen header_score_state (unat (0::byte)))) \<and>
   env_state (tone_gen (projr (tune_stopnote test_config 0 header_score_state)) 0) = ENV_RELEASE \<and>
   env_mult (tone_gen (projr (tune_stopnote test_config 0 header_score_state)) 0) = 39321 \<and>
   env_count (tone_gen (projr (tune_stopnote test_config 0 header_score_state)) 0) = 2647 \<and>
   tune_playing (projr (tune_stopnote test_config 0 header_score_state)) \<and>
   scorewait_samples (projr (tune_stopnote test_config 0 header_score_state)) = 4411 \<and>
   num_tgens_used (projr (tune_stopnote test_config 0 header_score_state)) = 4 \<and>
   playing (tone_gen (fst (projr (the (update_block test_config (flash header_score) 2647
       (projr (tune_stopnote test_config 0 header_score_state)))))) 0) \<and>
   \<not> playing (tone_gen (fst (projr (the (update_block test_config (flash header_score) 2648
       (projr (tune_stopnote test_config 0 header_score_state)))))) 0)"
proof -
  let ?ins = "instrument (replicate 256 32767) 0 441 88 1323 2647 39321"
  have h1: "unat (0::byte) < MAX_TGENS" by (simp add: MAX_TGENS_def)
  have h2: "playing (tone_gen header_score_state (unat (0::byte)))"
    and h3: "\<not> percussion (tone_gen header_score_state (unat (0::byte)))"
    and h6: "length (waveform_array (tone_gen header_score_state (unat (0::byte)))) = 256"
    and h7: "0 \<le> sint (tone_phase (tone_gen header_score_state (unat (0::byte))))"
    by (simp_all add: header_score_state_def note_tgen_def)
  have h4: "lookup (instrument_waveforms test_config)
       (unat (instrument_index (tone_gen header_score_state (unat (0::byte))))) = Inr ?ins"
    using piano_lookup by (simp add: header_score_state_def note_tgen_def)
  have h5: "release ?ins \<noteq> 0"
    by (simp add: instrument_def)
  from note_off_release [OF h1 h2 h3 h4 h5 h6 h7, where mem = "flash header_score"]
  obtain st' where s: "tune_stopnote test_config 0 header_score_state = Inr st'"
    and e: "env_state (tone_gen st' (unat (0::byte))) = ENV_RELEASE"
      "env_mult (tone_gen st' (unat (0::byte))) = sustain_level ?ins"
      "env_count (tone_gen st' (unat (0::byte))) = release ?ins"
    and run: "\<forall>s k st'' xs. tone_gen s (unat (0::byte)) = tone_gen st' (unat (0::byte)) \<and>
        quiet k s \<and>
        update_block test_config (flash header_score) k s = Some (Inr (st'', xs)) \<longrightarrow>
         (unat (0::byte) < unat (num_tgens_used s) \<and> k \<le> unat (release ?ins) \<longrightarrow>
            playing (tone_gen st'' (unat (0::byte)))) \<and>
         (unat (0::byte) < unat (num_tgens_used s) \<and> k = Suc (unat (release ?ins)) \<longrightarrow>
            \<not> playing (tone_gen st'' (unat (0::byte))))"
    and ret: "\<forall>s k. tone_gen s (unat (0::byte)) = tone_gen st' (unat (0::byte)) \<and> quiet k s \<and>
            unat (num_tgens_used s) \<le> MAX_TGENS \<and>
            (\<forall>j<unat (num_tgens_used s). j \<noteq> unat (0::byte) \<longrightarrow> fading (tone_gen s j)) \<longrightarrow>
         (\<exists>st'' xs. update_block test_config (flash header_score) k s = Some (Inr (st'', xs)))"
    by blast
  from s released_note have st': "st' = header_score_state\<lparr>tone_gen := (tone_gen header_score_state)
         (0 := note_tgen\<lparr>env_state := ENV_RELEASE, env_count := 2647, env_mult := 39321,
                          env_incr := - 14\<rparr>)\<rparr>"
    by simp
  have c: "tune_playing st'" "scorewait_samples st' = 4411" "num_tgens_used st' = 4"
    by (simp_all add: st' header_score_state_def)
  have q: "quiet 2647 st'" "quiet 2648 st'"
    by (simp_all add: quiet_def c)
  have n: "unat (num_tgens_used st') \<le> MAX_TGENS" "unat (0::byte) < unat (num_tgens_used st')"
    by (simp_all add: c MAX_TGENS_def)
  have f: "\<forall>j<unat (num_tgens_used st'). j \<noteq> unat (0::byte) \<longrightarrow> fading (tone_gen st' j)"
    by (simp add: st' header_score_state_def fading_def silent_tgen_def)
  have r: "unat (release ?ins) = 2647"
    by (simp add: instrument_def)
  from ret q(1) n(1) f obtain sa xa
    where ua: "update_block test_config (flash header_score) 2647 st' = Some (Inr (sa, xa))"
    by blast
  from ret q(2) n(1) f obtain sb xb
    where ub: "update_block test_config (flash header_score) 2648 st' = Some (Inr (sb, xb))"
    by blast
  have "(2647::nat) \<le> unat (release ?ins)"
    by (simp add: r)
  with run q(1) ua n(2) have pa: "playing (tone_gen sa (unat (0::byte)))"
    by blast
  have "(2648::nat) = Suc (unat (release ?ins))"
    by (simp add: r)
  with run q(2) ub n(2) have pb: "\<not> playing (tone_gen sb (unat (0::byte)))"
    by blast
  from s e c ua ub pa pb h1 h2 h3 h4 h5 h6 h7 show ?thesis
    by (simp add: instrument_def)
qed

text \<open>The note of \<open>header_score_state\<close> has the multiplier 0 when it is stopped; the
  release starts from 39321, and when \<open>update\<close> has rendered the 2647 samples of the
  release the generator is still playing, with the multiplier 2263.\<close>

theorem note_off_jumps_and_leaves_residue:
  "env_mult (tone_gen header_score_state 0) = 0 \<and>
   env_mult (tone_gen (projr (tune_stopnote test_config 0 header_score_state)) 0) = 39321 \<and>
   playing (tone_gen (fst (projr (the (update_block test_config (flash header_score) 2647
       (projr (tune_stopnote test_config 0 header_score_state)))))) 0) \<and>
   env_mult (tone_gen (fst (projr (the (update_block test_config (flash header_score) 2647
       (projr (tune_stopnote test_config 0 header_score_state)))))) 0) = 2263"
proof -
  let ?tg = "note_tgen\<lparr>env_state := ENV_RELEASE, env_count := 2647, env_mult := 39321,
                          env_incr := - 14\<rparr>"
  let ?s = "header_score_state\<lparr>tone_gen := (tone_gen header_score_state)(0 := ?tg)\<rparr>"
  have 0: "env_mult (tone_gen header_score_state 0) = 0"
    by (simp add: header_score_state_def note_tgen_def)
  have 1: "projr (tune_stopnote test_config 0 header_score_state) = ?s"
    by (simp add: released_note)
  from released_note_returns [of 2647] 1 obtain st'' xs
    where u: "update_block test_config (flash header_score) 2647 ?s = Some (Inr (st'', xs))"
    by auto
  have q: "quiet (2647 + 0) ?s"
    by (simp add: quiet_def header_score_state_def)
  have "playing (tone_gen st'' 0) \<and> \<not> percussion (tone_gen st'' 0) \<and>
     env_state (tone_gen st'' 0) = ENV_RELEASE \<and>
     env_count (tone_gen st'' 0) = env_count (tone_gen ?s 0) - of_nat 2647 \<and>
     env_mult (tone_gen st'' 0) = env_mult (tone_gen ?s 0) + of_nat 2647 * env_incr (tone_gen ?s 0) \<and>
     env_incr (tone_gen st'' 0) = env_incr (tone_gen ?s 0) \<and>
     length (waveform_array (tone_gen st'' 0)) = 256 \<and> 0 \<le> sint (tone_phase (tone_gen st'' 0)) \<and>
     num_tgens_used st'' = num_tgens_used ?s \<and> quiet 0 st''"
    by (rule release_block_run [OF u q]) (simp_all add: header_score_state_def note_tgen_def)
  then have 2: "playing (tone_gen st'' 0)" "env_mult (tone_gen st'' 0) = 2263"
    by simp_all
  from 0 1 u 2 show ?thesis
    by (simp add: released_note)
qed

section \<open>Envelope phases of length zero\<close>








text \<open>Where the division by zero traps, the first sample of a note with a delay and an
  attack of zero faults.\<close>

lemma zero_attack_traps:
  assumes "lookup (instrument_waveforms cfg) (unat (instrument_index tg)) = Inr ins"
    and "env_state tg = ENV_DELAY" and "env_count tg = 0" and "attack ins = 0"
    and "div_by_zero cfg = None"
  shows "env_loop cfg tg = Inl DivByZero"
proof -
  have "env_switch cfg tg = Inl DivByZero"
    using assms by (simp add: env_switch_def c_div_def)
  with assms(3) show ?thesis
    by (simp add: env_loop_zero)
qed





text \<open>
  The table of the source has no instrument with an attack of zero. For an entry with a
  delay and an attack of zero and the hold count of the source, the loop of the first
  sample of a note ends in the hold state with the multiplier \<open>0x10000\<close>.
\<close>

lemma zero_attack_first_sample:
  "env_loop (test_config\<lparr>instrument_waveforms :=
        [instrument (replicate 256 32767) 0 0 88 1323 1323 39321]\<rparr>)
     (note_tgen\<lparr>instrument_index := 0\<rparr>)
   = Inr (note_tgen\<lparr>instrument_index := 0, env_state := ENV_HOLD, env_count := 88,
       env_mult := 0x10000, env_incr := 0\<rparr>)"
  by (simp add: env_loop.simps env_switch_def c_div_def lookup_def test_config_def
      instrument_def note_tgen_def)
section \<open>The mixed sample\<close>

text \<open>
  Claim C2. After \<open>play\<close> on \<open>loud_score\<close> two percussion generators sound a table of
  the largest sample at the largest velocity. The level mixed for the first sample is
  39318, above the largest \<open>int16_t\<close>, and the sample stored is its low 16 bits, which
  read as \<open>-26218\<close>: the level wraps around, it is not clipped to 32767.
\<close>

theorem mixer_wraps_on_overflow:
  "play test_config (flash loud_score) 0 initial_state = Some (Inr loud_state) \<and>
   snd (projr (tgen_loop test_config (amplitude_fraction loud_state) [0..<2] (tone_gen loud_state) 0))
     = 39318 \<and>
   sint (snd (projr (the (update_sample test_config (flash loud_score) loud_state)))) = - 26218"
  by (simp add: loud_score_result)
     (simp add: sample_defs upt_2 test_config_def state_defs)

section \<open>A wait of zero milliseconds\<close>












section \<open>The reads of the wave tables\<close>

subsection \<open>Indices and phase of one generator\<close>

lemma nonneg_unat:
  fixes x :: int32
  assumes "0 \<le> sint x"
  shows "int (unat x) = sint x" and "unat x < 2 ^ 31"
proof -
  have u: "uint x = sint x" using assms by (rule sint_nonneg_uint)
  then show "int (unat x) = sint x" by simp
  have "sint x < 2 ^ 31" using sint_lt [of x] by simp
  with u have "uint x < 2 ^ 31" by simp
  then have "x < 0x80000000" by (simp add: word_less_def)
  then show "unat x < 2 ^ 31" by (simp add: word_less_nat_alt)
qed

lemma unat_signed_drop_bit:
  fixes x :: int32
  assumes "0 \<le> sint x"
  shows "unat (signed_drop_bit n x) = unat x div 2 ^ n"
proof -
  have s: "sint (signed_drop_bit n x) = sint x div 2 ^ n"
    by (simp only: sint_signed_drop_bit_eq drop_bit_eq_div)
  have "(0::int) < 2 ^ n" by simp
  then have "0 \<le> sint x div 2 ^ n" using assms by (simp only: pos_imp_zdiv_nonneg_iff)
  with s have "0 \<le> sint (signed_drop_bit n x)" by (simp only:)
  then have "int (unat (signed_drop_bit n x)) = sint (signed_drop_bit n x)"
    by (rule nonneg_unat)
  also have "\<dots> = int (unat x) div 2 ^ n"
    using s nonneg_unat(1) [OF assms] by (simp only:)
  also have "\<dots> = int (unat x div 2 ^ n)"
    by (simp add: zdiv_int)
  finally show ?thesis by (simp only: of_nat_eq_iff)
qed

lemma unat_ucast_end:
  fixes e :: int16
  shows "unat (ucast e :: int32) = unat e"
proof -
  have "unat e < 2 ^ 16" using unsigned_less [of e, where ?'a = nat] by simp
  then have "unat e < 2 ^ 32" by simp
  then show ?thesis by (simp add: unsigned_ucast_eq take_bit_nat_eq_self)
qed

lemma unat_and_low_byte:
  fixes x :: int32
  shows "unat (x AND 0xff) = unat x mod 256"
proof -
  have "(0xff :: int32) = mask 8" by (simp add: mask_eq_exp_minus_1)
  then have "x AND 0xff = take_bit 8 x" by (simp add: take_bit_eq_mask)
  then show ?thesis by (simp add: unsigned_take_bit_eq take_bit_eq_mod unat_mod)
qed

lemma unat_and_le:
  fixes x m :: int32
  shows "unat (x AND m) \<le> unat x"
  using word_and_le2 [of x m] by (simp add: word_le_nat_alt)

lemma env_switch_keeps:
  assumes "env_switch cfg tg = Inr tg'"
  shows "tone_phase tg' = tone_phase tg \<and> tone_incr tg' = tone_incr tg \<and>
     waveform_array tg' = waveform_array tg \<and> percussion tg' = percussion tg \<and>
     drum_ending_sample_index tg' = drum_ending_sample_index tg"
  using assms
  by (cases "env_state tg") (auto simp: env_switch_def split: sum.splits)

lemma env_loop_keeps:
  "env_loop cfg tg = Inr tg' \<Longrightarrow>
     tone_phase tg' = tone_phase tg \<and> tone_incr tg' = tone_incr tg \<and>
     waveform_array tg' = waveform_array tg \<and> percussion tg' = percussion tg \<and>
     drum_ending_sample_index tg' = drum_ending_sample_index tg"
proof (induction cfg tg rule: env_loop.induct)
  case (1 cfg tg)
  show ?case
  proof (cases "env_count tg = 0")
    case True
    with "1.prems" obtain tg1 where s: "env_switch cfg tg = Inr tg1"
      and l: "env_loop cfg tg1 = Inr tg'"
      by (auto simp: env_loop_zero split: sum.splits)
    from "1.IH" [OF True s l] env_switch_keeps [OF s] show ?thesis by simp
  next
    case False
    with "1.prems" show ?thesis by (simp add: env_loop_nonzero)
  qed
qed

lemma melodic_indices:
  assumes "\<not> percussion tg" and "0 \<le> sint (tone_phase tg)"
    and "tgen_indices cfg tg = Inr (tg1, index1, index2, scale)"
  shows "unat index1 < 256 \<and> unat index2 < 256 \<and> unat index2 = (unat index1 + 1) mod 256 \<and>
     waveform_array tg1 = waveform_array tg \<and> tone_phase tg1 = tone_phase tg \<and>
     tone_incr tg1 = tone_incr tg \<and> percussion tg1 = percussion tg"
proof -
  from assms(1,3) obtain tg0 where e: "env_loop cfg tg = Inr tg0"
    and t: "tg1 = tg0\<lparr>env_count := env_count tg0 - 1\<rparr>"
    and i1: "index1 = signed_drop_bit 23 (tone_phase tg)"
    and i2: "index2 = (index1 + 1) AND 0xff"
    by (auto simp: tgen_indices_def Let_def split: sum.splits)
  have a: "unat index1 < 256"
    unfolding i1 using assms(2) by (rule melodic_index1)
  then have "unat index1 + unat (1::int32) < 2 ^ LENGTH(32)" by simp
  then have "unat (index1 + 1) = unat index1 + unat (1::int32)"
    by (simp only: unat_add_lem)
  then have b: "unat index2 = (unat index1 + 1) mod 256"
    unfolding i2 by (simp add: unat_and_low_byte)
  from a b env_loop_keeps [OF e] t show ?thesis by simp
qed

lemma percussion_indices:
  assumes "percussion tg" and "playing tg" and "tgen_ok tg"
    and "tgen_indices cfg tg = Inr (tg1, index1, index2, scale)"
  shows "unat index1 = unat (tone_phase tg) div 2 ^ 17 \<and> unat index2 = unat index1 + 1 \<and>
     unat index2 \<le> unat (drum_ending_sample_index tg) \<and>
     unat index2 < length (waveform_array tg) \<and>
     tg1 = (if unat (drum_ending_sample_index tg) \<le> unat index2 then tg\<lparr>playing := False\<rparr> else tg)"
proof -
  from assms(1,4) have i1: "index1 = signed_drop_bit 17 (tone_phase tg)"
    and i2: "index2 = index1 + 1"
    and t: "tg1 = (if ucast (drum_ending_sample_index tg) \<le> index2 then tg\<lparr>playing := False\<rparr> else tg)"
    by (auto simp: tgen_indices_def Let_def)
  from assms(1,2,3) have p: "0 \<le> sint (tone_phase tg)"
    and b: "unat (signed_drop_bit 17 (tone_phase tg)) < unat (drum_ending_sample_index tg)"
    and l: "unat (drum_ending_sample_index tg) < length (waveform_array tg)"
    by (simp_all add: tgen_ok_def)
  have a: "unat index1 = unat (tone_phase tg) div 2 ^ 17"
    unfolding i1 using p by (rule unat_signed_drop_bit)
  have "unat (drum_ending_sample_index tg) < 2 ^ 16"
    using unsigned_less [of "drum_ending_sample_index tg", where ?'a = nat] by simp
  with b i1 have "unat index1 + unat (1::int32) < 2 ^ LENGTH(32)" by simp
  then have "unat (index1 + 1) = unat index1 + unat (1::int32)"
    by (simp only: unat_add_lem)
  then have c: "unat index2 = unat index1 + 1"
    unfolding i2 by simp
  have d: "ucast (drum_ending_sample_index tg) \<le> index2
      \<longleftrightarrow> unat (drum_ending_sample_index tg) \<le> unat index2"
    by (simp add: word_le_nat_alt unat_ucast_end)
  from a b c l i1 t d show ?thesis by simp
qed

lemma tgen_sample_result:
  assumes "tgen_sample cfg amp tg = Inr (tg', l)"
  shows "\<exists>tg1 index1 index2 scale. tgen_indices cfg tg = Inr (tg1, index1, index2, scale) \<and>
     unat index1 < length (waveform_array tg1) \<and> unat index2 < length (waveform_array tg1) \<and>
     tg' = tg1\<lparr>tone_phase := (tone_phase tg1 + tone_incr tg1) AND 0x7fffffff,
              env_mult := env_mult tg1 + env_incr tg1\<rparr>"
  using assms
  by (auto simp: tgen_sample_def lookup_def Let_def split: sum.splits prod.splits if_splits)

lemma div_step:
  fixes a b c :: nat
  assumes "b \<le> c" and "0 < c"
  shows "(a + b) div c \<le> a div c + 1"
proof -
  have "(a + b) div c \<le> (a + c) div c"
    using assms(1) by (intro div_le_mono) simp
  also have "\<dots> = a div c + c div c"
    by (rule div_plus_div_distrib_dvd_right) simp
  also have "\<dots> = a div c + 1" using assms(2) by simp
  finally show ?thesis .
qed

lemma percussion_phase_step:
  fixes p inc :: int32
  assumes "0 \<le> sint p" and "0 \<le> sint inc" and "sint inc \<le> 0x20000"
  shows "unat (signed_drop_bit 17 ((p + inc) AND 0x7fffffff)) \<le> unat p div 2 ^ 17 + 1"
proof -
  have P: "unat p < 2 ^ 31" using assms(1) by (rule nonneg_unat)
  have "uint inc = sint inc" using assms(2) by (rule sint_nonneg_uint)
  with assms(3) have "uint inc \<le> 0x20000" by simp
  then have "inc \<le> 0x20000" by (simp add: word_le_def)
  then have I: "unat inc \<le> 2 ^ 17" by (simp add: word_le_nat_alt)
  from P I have "unat p + unat inc < 2 ^ LENGTH(32)" by simp
  then have s: "unat (p + inc) = unat p + unat inc" by (simp only: unat_add_lem)
  have "unat (signed_drop_bit 17 ((p + inc) AND 0x7fffffff))
      = unat ((p + inc) AND 0x7fffffff) div 2 ^ 17"
    using phase_mask_nonneg by (rule unat_signed_drop_bit)
  also have "\<dots> \<le> unat (p + inc) div 2 ^ 17"
    by (intro div_le_mono unat_and_le)
  also have "\<dots> \<le> unat p div 2 ^ 17 + 1"
    unfolding s using I by (intro div_step) simp_all
  finally show ?thesis .
qed

lemma tgen_sample_ok:
  assumes "tgen_sample cfg amp tg = Inr (tg', l)" and "playing tg" and "tgen_ok tg"
  shows "tgen_ok tg'"
proof -
  from tgen_sample_result [OF assms(1)] obtain tg1 index1 index2 scale
    where i: "tgen_indices cfg tg = Inr (tg1, index1, index2, scale)"
      and t: "tg' = tg1\<lparr>tone_phase := (tone_phase tg1 + tone_incr tg1) AND 0x7fffffff,
              env_mult := env_mult tg1 + env_incr tg1\<rparr>"
    by blast
  show ?thesis
  proof (cases "percussion tg")
    case False
    from assms(2,3) False have p: "0 \<le> sint (tone_phase tg)"
      and w: "length (waveform_array tg) = 256"
      by (simp_all add: tgen_ok_def)
    from melodic_indices [OF False p i] t w False phase_mask_nonneg show ?thesis
      by (simp add: tgen_ok_def)
  next
    case True
    note pi = percussion_indices [OF True assms(2,3) i]
    from assms(2,3) True have ok: "0 \<le> sint (tone_phase tg)" "0 \<le> sint (tone_incr tg)"
      "sint (tone_incr tg) \<le> 0x20000"
      "unat (drum_ending_sample_index tg) < length (waveform_array tg)"
      by (simp_all add: tgen_ok_def)
    show ?thesis
    proof (cases "unat (drum_ending_sample_index tg) \<le> unat index2")
      case True
      with pi t show ?thesis by (simp add: tgen_ok_def)
    next
      case False
      with pi have tg1: "tg1 = tg" by simp
      from percussion_phase_step [OF ok(1,2,3)] pi False
      have "unat (signed_drop_bit 17 ((tone_phase tg + tone_incr tg) AND 0x7fffffff))
          < unat (drum_ending_sample_index tg)"
        by simp
      with t tg1 True ok phase_mask_nonneg show ?thesis
        by (simp add: tgen_ok_def)
    qed
  qed
qed

subsection \<open>The states of the object\<close>

lemma lookup_Inr: "lookup xs i = Inr x \<Longrightarrow> i < length xs \<and> xs ! i = x"
  by (auto simp: lookup_def split: if_splits)

lemma tgen_loop_ok:
  "tgen_loop cfg amp ks tgs level = Inr (tgs', level') \<Longrightarrow> \<forall>i<MAX_TGENS. tgen_ok (tgs i)
     \<Longrightarrow> \<forall>i<MAX_TGENS. tgen_ok (tgs' i)"
proof (induction ks arbitrary: tgs level)
  case Nil
  then show ?case by simp
next
  case (Cons k ks)
  from Cons.prems(1) have k: "k < MAX_TGENS" by (auto split: if_splits)
  show ?case
  proof (cases "playing (tgs k)")
    case True
    with Cons.prems(1) k obtain tg' l where s: "tgen_sample cfg amp (tgs k) = Inr (tg', l)"
      and r: "tgen_loop cfg amp ks (tgs(k := tg')) (level + l) = Inr (tgs', level')"
      by (auto split: if_splits sum.splits)
    from tgen_sample_ok [OF s True] Cons.prems(2) k have "tgen_ok tg'" by simp
    with Cons.prems(2) have "\<forall>i<MAX_TGENS. tgen_ok ((tgs(k := tg')) i)" by simp
    with r show ?thesis by (rule Cons.IH)
  next
    case False
    with Cons.prems(1) k have "tgen_loop cfg amp ks tgs level = Inr (tgs', level')"
      by (auto split: if_splits)
    then show ?thesis using Cons.prems(2) by (rule Cons.IH)
  qed
qed

lemma tune_stopnote_ok:
  "tune_stopnote cfg t st = Inr st' \<Longrightarrow> state_ok st \<Longrightarrow> state_ok st'"
  by (auto simp: tune_stopnote_def state_ok_def tgen_ok_def Let_def split: if_splits sum.splits)

lemma tune_stopscore_loop_ok:
  "tune_stopscore_loop cfg ks st = Inr st' \<Longrightarrow> state_ok st \<Longrightarrow> state_ok st'"
proof (induction ks arbitrary: st)
  case Nil
  then show ?case by simp
next
  case (Cons k ks)
  from Cons.prems(1) obtain st1 where 1: "tune_stopnote cfg (of_nat k) st = Inr st1"
    and 2: "tune_stopscore_loop cfg ks st1 = Inr st'"
    by (auto split: sum.splits)
  from Cons.IH [OF 2 tune_stopnote_ok [OF 1 Cons.prems(2)]] show ?case .
qed

lemma stop_ok: "stop cfg st = Inr st' \<Longrightarrow> state_ok st \<Longrightarrow> state_ok st'"
  by (auto simp: stop_def tune_stopscore_def state_ok_def split: sum.splits
      dest!: tune_stopscore_loop_ok)

lemma byte_phase_nonneg:
  fixes r :: byte
  shows "0 \<le> sint (push_bit 23 (ucast r :: int32))"
proof (cases "r = 0")
  case True
  then show ?thesis by simp
next
  case False
  from byte_phase_positive [OF this] show ?thesis by simp
qed

lemma state_ok_one:
  assumes "tgen_ok (tone_gen st' k)" and "\<forall>i. i \<noteq> k \<longrightarrow> tone_gen st' i = tone_gen st i"
    and "state_ok st"
  shows "state_ok st'"
  unfolding state_ok_def
proof (intro allI impI)
  fix i
  assume "i < MAX_TGENS"
  with assms show "tgen_ok (tone_gen st' i)"
    by (cases "i = k") (simp_all add: state_ok_def)
qed

lemma tune_playnote_ok:
  assumes "config_ok cfg" and "tune_playnote cfg t note vol st = Inr st'" and "state_ok st"
  shows "state_ok st'"
proof (cases "unat t < MAX_TGENS")
  case False
  with assms(2,3) show ?thesis by (simp add: tune_playnote_def)
next
  case t: True
  show ?thesis
  proof (cases "128 \<le> note")
    case True
    let ?d = "unat (drum_patch_map ! (unat note - 128))"
    from assms(2) t True obtain wtab fr sz
      where w: "lookup (drum_waveforms cfg) ?d = Inr wtab"
        and f: "lookup drum_waveform_frequencies ?d = Inr fr"
        and z: "lookup (drum_waveform_size cfg) ?d = Inr sz"
        and tg: "tone_phase (tone_gen st' (unat t)) = 0"
          "tone_incr (tone_gen st' (unat t)) = drum_incr cfg fr"
          "drum_ending_sample_index (tone_gen st' (unat t)) = sz - 1"
          "waveform_array (tone_gen st' (unat t)) = wtab"
          "percussion (tone_gen st' (unat t))"
        and other: "\<forall>i. i \<noteq> unat t \<longrightarrow> tone_gen st' i = tone_gen st i"
      by (auto simp: tune_playnote_def Let_def split: sum.splits)
    from lookup_Inr [OF f] have "fr \<in> set drum_waveform_frequencies"
      by (auto intro: nth_mem)
    with assms(1) have fr: "0 \<le> sint (drum_incr cfg fr)" "sint (drum_incr cfg fr) \<le> 0x20000"
      by (simp_all add: config_ok_def)
    from lookup_Inr [OF w] lookup_Inr [OF z] assms(1)
    have sz: "2 \<le> unat sz" "unat sz \<le> length wtab"
      by (auto simp: config_ok_def)
    then have "sz \<noteq> 0" by auto
    then have "unat (sz - 1) = unat sz - 1" by (rule unat_minus_one)
    with sz have e: "0 < unat (sz - 1)" "unat (sz - 1) < length wtab" by simp_all
    have "tgen_ok (tone_gen st' (unat t))"
      using tg fr e by (simp add: tgen_ok_def)
    then show ?thesis using other assms(3) by (rule state_ok_one)
  next
    case False
    from assms(2) t False obtain ins
      where l: "lookup (instrument_waveforms cfg) (unat (instrument_index (tone_gen st (unat t)))) = Inr ins"
        and tg: "tone_phase (tone_gen st' (unat t)) = push_bit 23 (ucast (random_byte (seed st)))"
          "waveform_array (tone_gen st' (unat t)) = waveforms ins"
          "\<not> percussion (tone_gen st' (unat t))"
        and other: "\<forall>i. i \<noteq> unat t \<longrightarrow> tone_gen st' i = tone_gen st i"
      by (auto simp: tune_playnote_def Let_def split: sum.splits)
    from lookup_Inr [OF l] have "ins \<in> set (instrument_waveforms cfg)"
      by (auto intro: nth_mem)
    with assms(1) have "length (waveforms ins) = 256"
      by (simp add: config_ok_def)
    with tg byte_phase_nonneg have "tgen_ok (tone_gen st' (unat t))"
      by (simp add: tgen_ok_def)
    then show ?thesis using other assms(3) by (rule state_ok_one)
  qed
qed

lemma body_ok:
  assumes "config_ok cfg" and "tune_stepscore_body cfg mem st = Inr r" and "state_ok st"
  shows "state_ok (loop_state r)"
proof -
  have c: "state_ok (st\<lparr>score_cursor := n\<rparr>)" for n
    using assms(3) by (simp add: state_ok_def)
  let ?cmd = "mem (score_cursor st)"
  let ?st1 = "st\<lparr>score_cursor := Suc (score_cursor st)\<rparr>"
  show ?thesis
  proof (cases "?cmd < 0x80")
    case True
    with assms(2) [symmetric]
    have "r = Break (st\<lparr>score_cursor := Suc (Suc (score_cursor st)),
        scorewait_samples := of_nat ((unat (push_bit 8 (ucast ?cmd)
          OR ucast (mem (Suc (score_cursor st))) :: int32) * 1000 * rate_round cfg) div 1000000)\<rparr>)"
      by (simp add: tune_stepscore_body_def Let_def)
    with assms(3) show ?thesis by (simp add: state_ok_def)
  next
    case nw: False
    show ?thesis
    proof (cases "?cmd AND 0xf0 = CMD_STOPNOTE")
      case True
      with nw assms(2) obtain st2 where 1: "tune_stopnote cfg (?cmd AND 0x0f) ?st1 = Inr st2"
        and 2: "r = Continue st2"
        by (auto simp: tune_stepscore_body_def Let_def split: sum.splits)
      from tune_stopnote_ok [OF 1 c] 2 show ?thesis by simp
    next
      case n1: False
      show ?thesis
      proof (cases "?cmd AND 0xf0 = CMD_PLAYNOTE")
        case True
        with nw n1 assms(2) obtain vol n st4
          where 1: "tune_playnote cfg (?cmd AND 0x0f) (mem (Suc (score_cursor st))) vol
              (st\<lparr>score_cursor := n\<rparr>) = Inr st4"
            and 2: "r = Continue st4"
          by (cases "volume_present st")
             (auto simp: tune_stepscore_body_def Let_def split: sum.splits)
        from tune_playnote_ok [OF assms(1) 1 c] 2 show ?thesis by simp
      next
        case n2: False
        show ?thesis
        proof (cases "?cmd AND 0xf0 = CMD_INSTRUMENT")
          case True
          with nw n1 n2 assms(2) obtain ii where "r = Continue (?st1\<lparr>score_cursor := Suc (score_cursor ?st1),
              tone_gen := (tone_gen ?st1)(unat (?cmd AND 0x0f) :=
                (tone_gen ?st1 (unat (?cmd AND 0x0f)))\<lparr>instrument_index := ii\<rparr>)\<rparr>)"
            by (auto simp: tune_stepscore_body_def Let_def split: sum.splits)
          with assms(3) show ?thesis by (simp add: state_ok_def tgen_ok_def)
        next
          case n3: False
          show ?thesis
          proof (cases "?cmd AND 0xf0 = CMD_STOP")
            case True
            with nw n1 n2 n3 assms(2) obtain st2 where 1: "stop cfg ?st1 = Inr st2"
              and 2: "r = Break st2"
              by (auto simp: tune_stepscore_body_def Let_def cmd_defs split: sum.splits if_splits)
            from stop_ok [OF 1 c] 2 show ?thesis by simp
          next
            case False
            with nw n1 n2 n3 assms(2) have "r = Continue (st\<lparr>score_cursor := score_start st\<rparr>)
                \<or> r = Continue ?st1"
              by (auto simp: tune_stepscore_body_def Let_def split: if_splits)
            with c show ?thesis by auto
          qed
        qed
      qed
    qed
  qed
qed

lemma tune_stepscore_ok:
  assumes "tune_stepscore cfg mem st = Some y" and "y = Inr st'"
    and "config_ok cfg" and "state_ok st"
  shows "state_ok st'"
  using assms
proof (induction arbitrary: st' rule: tune_stepscore.raw_induct [rotated 1, consumes 1])
  case (1 step cfg mem st y)
  show ?case
  proof (cases "tune_stepscore_body cfg mem st")
    case (Inl e)
    with 1 show ?thesis by simp
  next
    case (Inr r)
    note b = body_ok [OF "1.prems"(2) Inr "1.prems"(3)]
    show ?thesis
    proof (cases r)
      case (Continue s)
      with 1 Inr b show ?thesis by simp
    next
      case (Break s)
      with 1 Inr b show ?thesis by simp
    qed
  qed
qed

lemma tune_playscore_init_ok:
  assumes "tune_playscore_init cfg mem score st = Inr st1" and "state_ok st"
  shows "state_ok st1"
proof -
  obtain st0 where s: "(if tune_playing st then stop cfg st else Inr st) = Inr st0"
    using assms(1) by (auto simp: tune_playscore_init_def split: sum.splits)
  then have ok: "state_ok st0"
    using assms(2) by (auto split: if_splits dest: stop_ok)
  from assms(1) s have "\<forall>i<MAX_TGENS. tone_gen st1 i = (tone_gen st0 i)\<lparr>instrument_index := 13\<rparr>"
    by (auto simp: tune_playscore_init_def Let_def)
  with ok show ?thesis
    by (simp add: state_ok_def tgen_ok_def)
qed

lemma tune_playscore_ok:
  assumes "tune_playscore cfg mem score st = Some (Inr st')" and "config_ok cfg" and "state_ok st"
  shows "state_ok st'"
proof -
  from assms(1) obtain st1 st2 where i: "tune_playscore_init cfg mem score st = Inr st1"
    and s: "tune_stepscore cfg mem st1 = Some (Inr st2)"
    and e: "st' = st2\<lparr>tune_playing := True\<rparr>"
    by (auto simp: tune_playscore_def split: sum.splits option.splits)
  from tune_stepscore_ok [OF s refl assms(2) tune_playscore_init_ok [OF i assms(3)]] e
  show ?thesis by (simp add: state_ok_def)
qed

lemma update_sample_ok:
  assumes "update_sample cfg mem st = Some (Inr (st', x))" and "config_ok cfg" and "state_ok st"
  shows "state_ok st'"
proof -
  let ?gate = "if tune_playing st \<and> scorewait_samples st \<noteq> 0 then
              (let st1 = st\<lparr>scorewait_samples := scorewait_samples st - 1\<rparr> in
               if scorewait_samples st1 = 0 then tune_stepscore cfg mem st1 else Some (Inr st1))
            else Some (Inr st)"
  from assms(1) obtain st2 tgs level where g: "?gate = Some (Inr st2)"
    and l: "tgen_loop cfg (amplitude_fraction st2) [0..<unat (num_tgens_used st2)] (tone_gen st2) 0
              = Inr (tgs, level)"
    and e: "st' = st2\<lparr>tone_gen := tgs\<rparr>"
    by (auto simp: update_sample_def split: option.splits sum.splits)
  have w: "state_ok (st\<lparr>scorewait_samples := n\<rparr>)" for n
    using assms(3) by (simp add: state_ok_def)
  have "state_ok st2"
  proof (cases "tune_playing st \<and> scorewait_samples st \<noteq> 0 \<and> scorewait_samples st - 1 = 0")
    case True
    with g have "tune_stepscore cfg mem (st\<lparr>scorewait_samples := scorewait_samples st - 1\<rparr>)
        = Some (Inr st2)"
      by (simp add: Let_def)
    from tune_stepscore_ok [OF this refl assms(2) w] show ?thesis .
  next
    case False
    with g have "st2 = st \<or> st2 = st\<lparr>scorewait_samples := scorewait_samples st - 1\<rparr>"
      by (auto simp: Let_def split: if_splits)
    with assms(3) w show ?thesis by auto
  qed
  then have "\<forall>i<MAX_TGENS. tgen_ok (tone_gen st2 i)" by (simp add: state_ok_def)
  from tgen_loop_ok [OF l this] e show ?thesis by (simp add: state_ok_def)
qed

lemma initial_state_ok: "state_ok initial_state"
  by (simp add: state_ok_def tgen_ok_def initial_state_def silent_tgen_def)

lemma test_config_ok: "config_ok test_config"
  by (simp add: config_ok_def test_config_def source_instruments_def instrument_def
      drum_waveform_frequencies_def)

lemma indices_in_bounds:
  assumes "playing tg" and "tgen_ok tg"
    and "tgen_indices cfg tg = Inr (tg1, index1, index2, scale)"
  shows "unat index1 < length (waveform_array tg1) \<and> unat index2 < length (waveform_array tg1) \<and>
      (if percussion tg
       then unat index2 = unat index1 + 1 \<and>
            unat index2 \<le> unat (drum_ending_sample_index tg) \<and>
            (unat (drum_ending_sample_index tg) \<le> unat index2 \<longrightarrow> \<not> playing tg1)
       else unat index1 < 256 \<and> unat index2 = (unat index1 + 1) mod 256)"
proof (cases "percussion tg")
  case True
  from percussion_indices [OF True assms] True show ?thesis
    by auto
next
  case False
  with assms(1,2) have p: "0 \<le> sint (tone_phase tg)" and w: "length (waveform_array tg) = 256"
    by (simp_all add: tgen_ok_def)
  from melodic_indices [OF False p assms(3)] w False show ?thesis
    by simp
qed

lemma tgen_sample_phase:
  assumes "tgen_sample cfg amp tg = Inr (tg', l)"
  shows "0 \<le> sint (tone_phase tg') \<and> unat (tone_phase tg') < 2 ^ 31"
proof -
  from tgen_sample_result [OF assms] obtain tg1
    where "tg' = tg1\<lparr>tone_phase := (tone_phase tg1 + tone_incr tg1) AND 0x7fffffff,
              env_mult := env_mult tg1 + env_incr tg1\<rparr>"
    by blast
  then have "tone_phase tg' = (tone_phase tg1 + tone_incr tg1) AND 0x7fffffff"
    by simp
  with phase_mask_nonneg have "0 \<le> sint (tone_phase tg')" by simp
  with nonneg_unat(2) [OF this] show ?thesis by simp
qed

text \<open>
  Claim C6. For a generator that is playing and satisfies \<open>tgen_ok\<close>, the two indices
  that \<open>update\<close> computes lie within the wave table it reads: for a regular instrument
  the first is below 256 and the second is the first plus one modulo 256; for a
  percussion instrument the second is the first plus one and at most the ending index,
  and the generator is switched off in the very sample in which the second index reaches
  the ending index. After every sample the phase of the generator lies in \<open>[0, 2^31)\<close>,
  and \<open>tgen_ok\<close> holds again. With tables that satisfy \<open>config_ok\<close>, \<open>tgen_ok\<close> of all
  generators is kept by \<open>play\<close>, by every sample of \<open>update\<close> and by \<open>stop\<close>, and it
  holds in the initial state: so it holds whenever a sample is rendered.
\<close>

theorem waveform_reads_in_bounds:
  "(playing tg \<and> tgen_ok tg \<and> tgen_indices cfg tg = Inr (tg1, index1, index2, scale) \<longrightarrow>
      unat index1 < length (waveform_array tg1) \<and> unat index2 < length (waveform_array tg1) \<and>
      (if percussion tg
       then unat index2 = unat index1 + 1 \<and>
            unat index2 \<le> unat (drum_ending_sample_index tg) \<and>
            (unat (drum_ending_sample_index tg) \<le> unat index2 \<longrightarrow> \<not> playing tg1)
       else unat index1 < 256 \<and> unat index2 = (unat index1 + 1) mod 256))
   \<and> (tgen_sample cfg amp tg = Inr (tg', l) \<longrightarrow>
        0 \<le> sint (tone_phase tg') \<and> unat (tone_phase tg') < 2 ^ 31 \<and>
        (playing tg \<and> tgen_ok tg \<longrightarrow> tgen_ok tg'))
   \<and> (config_ok cfg \<and> state_ok st \<longrightarrow>
        (\<forall>st'. tune_playscore cfg mem score st = Some (Inr st') \<longrightarrow> state_ok st') \<and>
        (\<forall>st' x. update_sample cfg mem st = Some (Inr (st', x)) \<longrightarrow> state_ok st') \<and>
        (\<forall>st'. stop cfg st = Inr st' \<longrightarrow> state_ok st'))
   \<and> state_ok initial_state"
proof (intro conjI impI allI)
  assume a: "playing tg \<and> tgen_ok tg \<and> tgen_indices cfg tg = Inr (tg1, index1, index2, scale)"
  then have b: "unat index1 < length (waveform_array tg1) \<and> unat index2 < length (waveform_array tg1) \<and>
      (if percussion tg
       then unat index2 = unat index1 + 1 \<and>
            unat index2 \<le> unat (drum_ending_sample_index tg) \<and>
            (unat (drum_ending_sample_index tg) \<le> unat index2 \<longrightarrow> \<not> playing tg1)
       else unat index1 < 256 \<and> unat index2 = (unat index1 + 1) mod 256)"
    by (intro indices_in_bounds [where cfg = cfg and scale = scale]) simp_all
  from b show "unat index1 < length (waveform_array tg1)" by simp
  from b show "unat index2 < length (waveform_array tg1)" by simp
  from b show "if percussion tg
       then unat index2 = unat index1 + 1 \<and>
            unat index2 \<le> unat (drum_ending_sample_index tg) \<and>
            (unat (drum_ending_sample_index tg) \<le> unat index2 \<longrightarrow> \<not> playing tg1)
       else unat index1 < 256 \<and> unat index2 = (unat index1 + 1) mod 256" by blast
next
  assume s: "tgen_sample cfg amp tg = Inr (tg', l)"
  from tgen_sample_phase [OF s] show "0 \<le> sint (tone_phase tg')" by simp
  from tgen_sample_phase [OF s] show "unat (tone_phase tg') < 2 ^ 31" by simp
  assume "playing tg \<and> tgen_ok tg"
  then show "tgen_ok tg'" using s by (intro tgen_sample_ok [OF s]) simp_all
next
  fix st'
  assume c: "config_ok cfg \<and> state_ok st"
    and p: "tune_playscore cfg mem score st = Some (Inr st')"
  from c show "state_ok st'" by (intro tune_playscore_ok [OF p]) simp_all
next
  fix st' x
  assume c: "config_ok cfg \<and> state_ok st"
    and u: "update_sample cfg mem st = Some (Inr (st', x))"
  from c show "state_ok st'" by (intro update_sample_ok [OF u]) simp_all
next
  fix st'
  assume c: "config_ok cfg \<and> state_ok st" and s: "stop cfg st = Inr st'"
  from c show "state_ok st'" by (intro stop_ok [OF s]) simp_all
next
  show "state_ok initial_state" by (rule initial_state_ok)
qed

lemma note_sample_returns:
  "\<exists>tg' l. tgen_sample test_config 26214 note_tgen = Inr (tg', l) \<and> playing tg' \<and> \<not> percussion tg'"
  by (simp add: sample_defs env_loop.simps test_config_def source_instruments_def
      instrument_def state_defs signed_divide_int_def)

lemma header_state_sample_returns:
  "\<exists>st' x. update_sample test_config (flash header_score) header_score_state = Some (Inr (st', x))
     \<and> playing (tone_gen st' 0) \<and> \<not> percussion (tone_gen st' 0)"
  by (simp add: sample_defs upt_4 env_loop.simps test_config_def source_instruments_def
      instrument_def state_defs header_score_state_def signed_divide_int_def)

theorem waveform_reads_in_bounds_witness:
  "playing drum_tgen \<and>
   tgen_indices test_config drum_tgen = Inr (drum_tgen\<lparr>playing := False\<rparr>, 0, 1, 0) \<and>
   unat (1::int32) < length (waveform_array (drum_tgen\<lparr>playing := False\<rparr>)) \<and>
   unat (1::int32) \<le> unat (drum_ending_sample_index drum_tgen) \<and>
   playing note_tgen \<and>
   tgen_sample test_config 26214 note_tgen = Inr (projr (tgen_sample test_config 26214 note_tgen)) \<and>
   0 \<le> sint (tone_phase (fst (projr (tgen_sample test_config 26214 note_tgen)))) \<and>
   length (waveform_array (fst (projr (tgen_sample test_config 26214 note_tgen)))) = 256 \<and>
   update_sample test_config (flash header_score) header_score_state
     = Some (Inr (projr (the (update_sample test_config (flash header_score) header_score_state)))) \<and>
   length (waveform_array (tone_gen (fst (projr (the
     (update_sample test_config (flash header_score) header_score_state)))) 0)) = 256"
proof -
  have dp: "playing drum_tgen" and np: "playing note_tgen"
    by (simp_all add: drum_tgen_def note_tgen_def)
  have d_ok: "tgen_ok drum_tgen" and n_ok: "tgen_ok note_tgen"
    by (simp_all add: tgen_ok_def drum_tgen_def note_tgen_def)
  have di: "tgen_indices test_config drum_tgen = Inr (drum_tgen\<lparr>playing := False\<rparr>, 0, 1, 0)"
    by (simp add: tgen_indices_def drum_tgen_def Let_def)
  from waveform_reads_in_bounds [where tg = drum_tgen and cfg = test_config
      and ?tg1.0 = "drum_tgen\<lparr>playing := False\<rparr>" and ?index1.0 = 0 and ?index2.0 = 1 and scale = 0]
    dp d_ok di
  have d: "unat (1::int32) < length (waveform_array (drum_tgen\<lparr>playing := False\<rparr>))"
    "unat (1::int32) \<le> unat (drum_ending_sample_index drum_tgen)"
    by (simp_all add: drum_tgen_def)
  from note_sample_returns obtain tg' l
    where ns: "tgen_sample test_config 26214 note_tgen = Inr (tg', l)"
      and tg': "playing tg'" "\<not> percussion tg'"
    by blast
  from waveform_reads_in_bounds [where tg = note_tgen and cfg = test_config and amp = 26214
      and tg' = tg' and l = l] ns np n_ok
  have n: "0 \<le> sint (tone_phase tg')" "tgen_ok tg'"
    by simp_all
  from n(2) tg' have nl: "length (waveform_array tg') = 256"
    by (simp add: tgen_ok_def)
  have s_ok: "state_ok header_score_state"
    by (simp add: state_ok_def tgen_ok_def header_score_state_def note_tgen_def silent_tgen_def)
  from header_state_sample_returns obtain st' x
    where us: "update_sample test_config (flash header_score) header_score_state = Some (Inr (st', x))"
      and st': "playing (tone_gen st' 0)" "\<not> percussion (tone_gen st' 0)"
    by blast
  from waveform_reads_in_bounds [where cfg = test_config and st = header_score_state
      and mem = "flash header_score"] test_config_ok s_ok us
  have "state_ok st'" by blast
  with st' have sl: "length (waveform_array (tone_gen st' 0)) = 256"
    by (simp add: state_ok_def tgen_ok_def MAX_TGENS_def)
  from dp di d np ns n(1) nl us sl show ?thesis by simp
qed

end
